theory Spec2Isabelle
  imports Complex_Main
begin

section \<open>Cyber Runner: the simulation core of \<open>src/app/page.tsx\<close>\<close>

text \<open>
  The game keeps its simulation state in mutable references of one React component:
  \<open>worldRef\<close> (the run), \<open>upgradesRef\<close>, \<open>frameRef\<close>, \<open>audioRef\<close>, the React states
  \<open>leaderboard\<close> and \<open>playerName\<close>, and the module-level counter of \<open>createUniqueId\<close>.
  They are the fields of the record \<open>Game\<close>; every handler is a function from \<open>Game\<close> to
  \<open>Game\<close>, and what a handler reads from the browser (the frame timestamp,
  \<open>performance.now()\<close>, \<open>Math.random()\<close>, \<open>Date.now()\<close>, how the audio context
  responds) is an argument.

  JavaScript numbers that hold coordinates, times and the score are modelled as \<open>real\<close>
  (exact arithmetic, no rounding, no NaN); numbers that only ever count (identifiers,
  levels, shield charges, upgrade points) are \<open>int\<close>, the frame counter is \<open>nat\<close>.
  Canvas drawing, the HUD mirror of the state and the synthesis inside \<open>playTone\<close> are
  not modelled; a call of \<open>playTone\<close> is recorded in the list \<open>tones\<close>.

  Field names that several interfaces of the source share carry a prefix here:
  \<open>Entity.x\<close> is \<open>ex\<close>, \<open>Player.x\<close> is \<open>px\<close>, \<open>World.level\<close> is \<open>wlevel\<close>,
  \<open>LeaderboardEntry.score\<close> is \<open>entryScore\<close>, and so on.
\<close>

subsection \<open>Data model\<close>

datatype GameStatus = Idle | Running | Paused | Over

datatype EntityType = Data | Firewall | Virus

record Entity =
  eid :: int
  etype :: EntityType
  ex :: real
  ey :: real
  ewidth :: real
  eheight :: real
  espeed :: real
  amplitude :: "real option"
  phase :: "real option"

record Player =
  px :: real
  py :: real
  pwidth :: real
  pheight :: real
  vy :: real
  vx :: real
  onGround :: bool
  shieldCharges :: int
  invulnerableUntil :: real

record LevelConfig =
  level :: int
  speedScale :: real
  obstacleInterval :: real
  virusInterval :: real
  dataInterval :: real
  label :: string

record LeaderboardEntry =
  name :: string
  entryScore :: real
  timestamp :: real

record Inputs =
  left :: bool
  right :: bool
  jumpQueued :: bool

record UpgradeState =
  speed :: int
  jump :: int
  shield :: int

datatype UpgradeKind = Speed | Jump | Shield

record LastSpawn =
  firewall :: real
  virus :: real
  data :: real

record World =
  status :: GameStatus
  player :: Player
  entities :: "Entity list"
  lastFrame :: real
  lastSpawn :: LastSpawn
  score :: real
  upgradePoints :: int
  wlevel :: int
  inputs :: Inputs

datatype OscillatorType = Sine | Square | Sawtooth | Triangle

record Tone =
  frequency :: real
  duration :: real
  wave :: OscillatorType

record Game =
  worldRef :: "World option"
  upgradesRef :: UpgradeState
  frameRef :: nat
  audioRef :: bool
  music :: bool
  tones :: "Tone list"
  idCounter :: int
  leaderboard :: "LeaderboardEntry list"
  playerName :: string

text \<open>What one call of \<open>renderFrame\<close> reads from outside: its argument \<open>timestamp\<close>,
  \<open>performance.now()\<close>, the three \<open>Math.random()\<close> draws of the spawn functions and the
  \<open>Date.now()\<close> of \<open>saveScore\<close>.\<close>

record FrameEnv =
  frameTime :: real
  perfNow :: real
  virusRandom :: real
  dataRandomY :: real
  dataRandomPhase :: real
  dateNow :: real

subsection \<open>Constants and pure helpers\<close>

definition CANVAS_WIDTH :: real where "CANVAS_WIDTH = 960"
definition CANVAS_HEIGHT :: real where "CANVAS_HEIGHT = 540"
definition GROUND_HEIGHT :: real where "GROUND_HEIGHT = 120"
definition GRAVITY :: real where "GRAVITY = 0.6"
definition MAX_LEADERS :: nat where "MAX_LEADERS = 5"

definition LEVELS :: "LevelConfig list" where
  "LEVELS =
    [\<lparr>level = 1, speedScale = 1, obstacleInterval = 1600, virusInterval = 2900,
      dataInterval = 1100, label = ''Boot Sequence''\<rparr>,
     \<lparr>level = 2, speedScale = 1.35, obstacleInterval = 1400, virusInterval = 2400,
      dataInterval = 950, label = ''Firewall Breach''\<rparr>,
     \<lparr>level = 3, speedScale = 1.7, obstacleInterval = 1150, virusInterval = 1900,
      dataInterval = 820, label = ''Cyber Overload''\<rparr>]"

definition initialPlayer :: "int \<Rightarrow> Player" where
  "initialPlayer charges =
    \<lparr>px = 160, py = CANVAS_HEIGHT - GROUND_HEIGHT - 72, pwidth = 48, pheight = 72,
     vy = 0, vx = 0, onGround = True, shieldCharges = charges, invulnerableUntil = 0\<rparr>"

definition clamp :: "real \<Rightarrow> real \<Rightarrow> real \<Rightarrow> real" where
  "clamp v lo hi = max lo (min hi v)"

definition getLevel :: "real \<Rightarrow> LevelConfig" where
  "getLevel sc =
    (if sc \<ge> 1600 then LEVELS ! 2
     else if sc \<ge> 600 then LEVELS ! 1
     else LEVELS ! 0)"

text \<open>\<open>createUniqueId\<close>: the counter is incremented, then returned.\<close>

definition createUniqueId :: "int \<Rightarrow> int \<times> int" where
  "createUniqueId c = (c + 1, c + 1)"

definition spawnFirewall :: "LevelConfig \<Rightarrow> int \<Rightarrow> Entity \<times> int" where
  "spawnFirewall lv c =
    (case createUniqueId c of (i, c') \<Rightarrow>
      (\<lparr>eid = i, etype = Firewall, ex = CANVAS_WIDTH + 40,
        ey = CANVAS_HEIGHT - GROUND_HEIGHT - 60, ewidth = 50, eheight = 60,
        espeed = 4.2 * speedScale lv, amplitude = None, phase = None\<rparr>, c'))"

definition spawnVirus :: "LevelConfig \<Rightarrow> real \<Rightarrow> int \<Rightarrow> Entity \<times> int" where
  "spawnVirus lv rnd c =
    (case createUniqueId c of (i, c') \<Rightarrow>
      (\<lparr>eid = i, etype = Virus, ex = CANVAS_WIDTH + 40,
        ey = CANVAS_HEIGHT - GROUND_HEIGHT - 140, ewidth = 54, eheight = 54,
        espeed = 3.8 * speedScale lv, amplitude = Some (26 + of_int (level lv) * 6),
        phase = Some (rnd * pi * 2)\<rparr>, c'))"

definition spawnDataPacket :: "LevelConfig \<Rightarrow> real \<Rightarrow> real \<Rightarrow> int \<Rightarrow> Entity \<times> int" where
  "spawnDataPacket lv rndY rndPhase c =
    (case createUniqueId c of (i, c') \<Rightarrow>
      (\<lparr>eid = i, etype = Data, ex = CANVAS_WIDTH + 40,
        ey = CANVAS_HEIGHT - GROUND_HEIGHT - (if rndY > 0.45 then 180 else 90),
        ewidth = 36, eheight = 36, espeed = 4.1 * speedScale lv, amplitude = Some 18,
        phase = Some (rndPhase * pi * 2)\<rparr>, c'))"

definition playTone :: "real \<Rightarrow> real \<Rightarrow> OscillatorType \<Rightarrow> Tone list \<Rightarrow> Tone list" where
  "playTone f d t tlog = tlog @ [\<lparr>frequency = f, duration = d, wave = t\<rparr>]"

text \<open>\<open>entity.phase ?? 0\<close> and \<open>entity.amplitude ?? 0\<close>.\<close>

definition orZero :: "real option \<Rightarrow> real" where
  "orZero v = (case v of None \<Rightarrow> 0 | Some r \<Rightarrow> r)"

subsection \<open>Score persistence\<close>

text \<open>\<open>saveScore\<close>: append the entry, sort by \<open>b.score - a.score\<close> (a stable sort,
  descending), keep the first \<open>MAX_LEADERS\<close>. The list written to local storage is the
  list returned.\<close>

definition newEntry :: "string \<Rightarrow> real \<Rightarrow> real \<Rightarrow> LeaderboardEntry" where
  "newEntry nm sc t =
    \<lparr>name = (if nm = [] then ''Anonymous'' else nm), entryScore = sc, timestamp = t\<rparr>"

definition saveScore :: "string \<Rightarrow> real \<Rightarrow> real \<Rightarrow> LeaderboardEntry list \<Rightarrow> LeaderboardEntry list" where
  "saveScore nm sc t prev =
    take MAX_LEADERS (sort_key (\<lambda>e. - entryScore e) (prev @ [newEntry nm sc t]))"

subsection \<open>One tick: \<open>renderFrame\<close>\<close>

text \<open>Lines 447 to 473: horizontal velocity from the held keys, then the position.\<close>

definition moveHorizontal :: "UpgradeState \<Rightarrow> real \<Rightarrow> World \<Rightarrow> World" where
  "moveHorizontal u deltaScale w =
    (let playerSpeedBase = 5 + of_int (speed u) * 1.4;
         maxSpeed = 9 + of_int (speed u) * 1.2;
         acceleration = 0.5 + of_int (speed u) * 0.12;
         p = player w;
         vx1 = (if left (inputs w) then clamp (vx p - acceleration) (- maxSpeed) maxSpeed
                else if right (inputs w) then clamp (vx p + acceleration) (- maxSpeed) maxSpeed
                else (let v = vx p * 0.92 in if \<bar>v\<bar> < 0.15 then 0 else v));
         vx2 = (if \<bar>vx1\<bar> < playerSpeedBase * 0.35 \<and> right (inputs w)
                then playerSpeedBase * 0.6 else vx1);
         x1 = clamp (px p + vx2 * deltaScale) 60 (CANVAS_WIDTH - pwidth p - 80)
     in w\<lparr>player := p\<lparr>vx := vx2, px := x1\<rparr>\<rparr>)"

text \<open>Lines 475 to 482: the jump request.\<close>

definition jumpStep :: "UpgradeState \<Rightarrow> bool \<Rightarrow> World \<times> Tone list \<Rightarrow> World \<times> Tone list" where
  "jumpStep u audio st =
    (case st of (w, tlog) \<Rightarrow>
      if jumpQueued (inputs w) \<and> onGround (player w) then
        (w\<lparr>player := (player w)\<lparr>vy := - (12 + of_int (jump u) * 1.8), onGround := False\<rparr>,
           inputs := (inputs w)\<lparr>jumpQueued := False\<rparr>\<rparr>,
         if audio then playTone (520 + of_int (jump u) * 40) 0.18 Triangle tlog else tlog)
      else st)"

text \<open>Lines 484 to 491: gravity, then the ground plane.\<close>

definition gravityStep :: "real \<Rightarrow> World \<Rightarrow> World" where
  "gravityStep deltaScale w =
    (let p = player w;
         vy1 = vy p + GRAVITY * deltaScale;
         y1 = py p + vy1 * deltaScale;
         groundY = CANVAS_HEIGHT - GROUND_HEIGHT - pheight p
     in if y1 \<ge> groundY
        then w\<lparr>player := p\<lparr>vy := 0, py := groundY, onGround := True\<rparr>\<rparr>
        else w\<lparr>player := p\<lparr>vy := vy1, py := y1\<rparr>\<rparr>)"

text \<open>Lines 494 to 505: the three spawn timers, in the order firewall, virus, data.\<close>

definition spawnStep :: "FrameEnv \<Rightarrow> LevelConfig \<Rightarrow> World \<times> int \<Rightarrow> World \<times> int" where
  "spawnStep env lv st =
    (case st of (w, c) \<Rightarrow>
      let t = frameTime env;
          (w1, c1) =
            (if t - firewall (lastSpawn w) > obstacleInterval lv
             then (case spawnFirewall lv c of (e, c') \<Rightarrow>
                     (w\<lparr>entities := entities w @ [e],
                        lastSpawn := (lastSpawn w)\<lparr>firewall := t\<rparr>\<rparr>, c'))
             else (w, c));
          (w2, c2) =
            (if t - virus (lastSpawn w1) > virusInterval lv
             then (case spawnVirus lv (virusRandom env) c1 of (e, c') \<Rightarrow>
                     (w1\<lparr>entities := entities w1 @ [e],
                         lastSpawn := (lastSpawn w1)\<lparr>virus := t\<rparr>\<rparr>, c'))
             else (w1, c1))
      in (if t - data (lastSpawn w2) > dataInterval lv
          then (case spawnDataPacket lv (dataRandomY env) (dataRandomPhase env) c2 of (e, c') \<Rightarrow>
                  (w2\<lparr>entities := entities w2 @ [e],
                      lastSpawn := (lastSpawn w2)\<lparr>data := t\<rparr>\<rparr>, c'))
          else (w2, c2)))"

text \<open>Lines 507 to 518: every entity moves left, the oscillating kinds also vertically;
  entities far behind the left edge are dropped.\<close>

definition advanceEntity :: "UpgradeState \<Rightarrow> LevelConfig \<Rightarrow> nat \<Rightarrow> real \<Rightarrow> Entity \<Rightarrow> Entity" where
  "advanceEntity u lv frame deltaScale entity =
    (let updated = entity\<lparr>ex := ex entity -
            (espeed entity + of_int (speed u) * 0.6 + speedScale lv) * deltaScale * 4.2\<rparr>
     in if etype entity \<noteq> Firewall
        then updated\<lparr>ey := ey updated +
               sin (real frame / 16 + orZero (phase entity)) * orZero (amplitude entity)
                 * 0.04 * deltaScale\<rparr>
        else updated)"

definition advanceEntities :: "UpgradeState \<Rightarrow> LevelConfig \<Rightarrow> nat \<Rightarrow> real \<Rightarrow> World \<Rightarrow> World" where
  "advanceEntities u lv frame deltaScale w =
    w\<lparr>entities := filter (\<lambda>e. ex e + ewidth e > - 160)
                    (map (advanceEntity u lv frame deltaScale) (entities w))\<rparr>"

text \<open>Lines 522 to 528: the bounding-box test, with the bob of a data packet.\<close>

definition collides :: "Player \<Rightarrow> nat \<Rightarrow> Entity \<Rightarrow> bool" where
  "collides p frame entity =
    (let bob = (if etype entity = Data
                then sin (real frame / 6 + orZero (phase entity)) * 4 else 0);
         entityY = ey entity + bob
     in px p < ex entity + ewidth entity \<and> px p + pwidth p > ex entity \<and>
        py p < entityY + eheight entity \<and> py p + pheight p > entityY)"

text \<open>Lines 521 to 551: the body of the \<open>forEach\<close> callback for one entity. It reads and
  writes \<open>currentWorld\<close>; \<open>player\<close> is the same object as \<open>currentWorld.player\<close>.\<close>

definition collisionStep :: "real \<Rightarrow> nat \<Rightarrow> bool \<Rightarrow> World \<times> Tone list \<Rightarrow> Entity \<Rightarrow> World \<times> Tone list" where
  "collisionStep timeNow frame audio st entity =
    (case st of (w, tlog) \<Rightarrow>
      if \<not> collides (player w) frame entity then st
      else if etype entity = Data then
        (w\<lparr>entities := filter (\<lambda>e. eid e \<noteq> eid entity) (entities w),
           score := score w + 120,
           upgradePoints := upgradePoints w + 1\<rparr>,
         if audio then playTone 880 0.16 Square tlog else tlog)
      else if timeNow < invulnerableUntil (player w) then st
      else if shieldCharges (player w) > 0 then
        (w\<lparr>player := (player w)\<lparr>shieldCharges := shieldCharges (player w) - 1,
                                 invulnerableUntil := timeNow + 1200\<rparr>,
           entities := filter (\<lambda>e. eid e \<noteq> eid entity) (entities w)\<rparr>,
         if audio then playTone 160 0.3 Sawtooth tlog else tlog)
      else (w\<lparr>status := Over\<rparr>, tlog))"

text \<open>\<open>forEach\<close> walks the array that \<open>currentWorld.entities\<close> held when the loop began;
  the assignments inside the callback replace \<open>currentWorld.entities\<close> by a new array and
  do not touch the one being walked.\<close>

definition resolveCollisions :: "real \<Rightarrow> nat \<Rightarrow> bool \<Rightarrow> World \<times> Tone list \<Rightarrow> World \<times> Tone list" where
  "resolveCollisions timeNow frame audio st =
    foldl (collisionStep timeNow frame audio) st (entities (fst st))"

text \<open>Lines 435 to 518: everything a tick does before collision resolution.\<close>

definition beforeCollisions ::
  "FrameEnv \<Rightarrow> UpgradeState \<Rightarrow> bool \<Rightarrow> nat \<Rightarrow> World \<times> Tone list \<times> int \<Rightarrow> World \<times> Tone list \<times> int" where
  "beforeCollisions env u audio frame st =
    (case st of (currentWorld, tlog, c) \<Rightarrow>
      let delta = frameTime env - lastFrame currentWorld;
          deltaScale = delta / (1000 / 60);
          currentLevel = getLevel (score currentWorld);
          w1 = currentWorld\<lparr>lastFrame := frameTime env, wlevel := level currentLevel\<rparr>;
          w2 = moveHorizontal u deltaScale w1;
          (w3, log3) = jumpStep u audio (w2, tlog);
          w4 = gravityStep deltaScale w3;
          (w5, c5) = spawnStep env currentLevel (w4, c);
          w6 = advanceEntities u currentLevel frame deltaScale w5
      in (w6, log3, c5))"

definition stopAudio :: "Game \<Rightarrow> Game" where
  "stopAudio g = (if \<not> audioRef g then g else g\<lparr>music := False\<rparr>)"

text \<open>\<open>renderFrame\<close>. The name is the \<open>playerName\<close> that the \<open>saveScore\<close> closure of the
  running loop captured when the loop was started.\<close>

definition renderFrame :: "string \<Rightarrow> FrameEnv \<Rightarrow> Game \<Rightarrow> Game" where
  "renderFrame savedName env g =
    (case worldRef g of
       None \<Rightarrow> g
     | Some currentWorld \<Rightarrow>
        if status currentWorld \<noteq> Running then g
        else
          let delta = frameTime env - lastFrame currentWorld;
              currentLevel = getLevel (score currentWorld);
              frame = frameRef g + 1;
              (w6, log6, c6) =
                 beforeCollisions env (upgradesRef g) (audioRef g) frame
                   (currentWorld, tones g, idCounter g);
              (w7, log7) = resolveCollisions (perfNow env) frame (audioRef g) (w6, log6);
              w8 = w7\<lparr>score := score w7 + delta * 0.35 * speedScale currentLevel\<rparr>;
              g1 = g\<lparr>worldRef := Some w8, frameRef := frame, tones := log7, idCounter := c6\<rparr>
          in if status w8 = Running then g1
             else if status w8 = Over then
               (let g2 = stopAudio g1
                in g2\<lparr>leaderboard :=
                        saveScore savedName (of_int \<lfloor>score w8\<rfloor>) (dateNow env) (leaderboard g2)\<rparr>)
             else g1)"

subsection \<open>Run lifecycle and upgrades\<close>

definition resetWorld :: "int \<Rightarrow> real \<Rightarrow> World" where
  "resetWorld charges now =
    \<lparr>status = Idle, player = initialPlayer charges, entities = [], lastFrame = now,
     lastSpawn = \<lparr>firewall = 0, virus = 0, data = 0\<rparr>, score = 0, upgradePoints = 0,
     wlevel = 1, inputs = \<lparr>left = False, right = False, jumpQueued = False\<rparr>\<rparr>"

text \<open>\<open>ensureAudio\<close>. Its \<open>try\<close> block can fail where the audio context is created (only
  attempted when there is no handle yet) and where a suspended context is resumed; both
  exceptions are caught. The outcome is an argument.\<close>

datatype AudioOutcome = AudioReady | ContextFails | ResumeFails

definition ensureAudio :: "AudioOutcome \<Rightarrow> Game \<Rightarrow> Game" where
  "ensureAudio out g =
    (if \<not> audioRef g \<and> out = ContextFails then g
     else if out = ResumeFails then g\<lparr>audioRef := True\<rparr>
     else g\<lparr>audioRef := True, music := True\<rparr>)"

definition startGame :: "AudioOutcome \<Rightarrow> real \<Rightarrow> Game \<Rightarrow> Game" where
  "startGame out now g =
    (let charges = 1 + shield (upgradesRef g);
         world = (resetWorld charges now)\<lparr>status := Running\<rparr>
     in ensureAudio out (g\<lparr>worldRef := Some world, frameRef := 0\<rparr>))"

definition togglePause :: "AudioOutcome \<Rightarrow> real \<Rightarrow> Game \<Rightarrow> Game" where
  "togglePause out now g =
    (case worldRef g of
       None \<Rightarrow> g
     | Some world \<Rightarrow>
        if status world = Running then stopAudio (g\<lparr>worldRef := Some (world\<lparr>status := Paused\<rparr>)\<rparr>)
        else if status world = Paused then
          ensureAudio out (g\<lparr>worldRef := Some (world\<lparr>status := Running, lastFrame := now\<rparr>)\<rparr>)
        else g)"

definition restartGame :: "AudioOutcome \<Rightarrow> real \<Rightarrow> Game \<Rightarrow> Game" where
  "restartGame out now g = startGame out now (stopAudio g)"

fun levelOf :: "UpgradeState \<Rightarrow> UpgradeKind \<Rightarrow> int" where
  "levelOf u Speed = speed u"
| "levelOf u Jump = jump u"
| "levelOf u Shield = shield u"

fun setLevel :: "UpgradeState \<Rightarrow> UpgradeKind \<Rightarrow> int \<Rightarrow> UpgradeState" where
  "setLevel u Speed n = u\<lparr>speed := n\<rparr>"
| "setLevel u Jump n = u\<lparr>jump := n\<rparr>"
| "setLevel u Shield n = u\<lparr>shield := n\<rparr>"

definition upgradeCost :: "UpgradeState \<Rightarrow> UpgradeKind \<Rightarrow> int" where
  "upgradeCost current kind = 3 + levelOf current kind * 2"

definition applyUpgrade :: "UpgradeKind \<Rightarrow> Game \<Rightarrow> Game" where
  "applyUpgrade kind g =
    (case worldRef g of
       None \<Rightarrow> g
     | Some world \<Rightarrow>
        if status world = Idle then g
        else
          let current = upgradesRef g;
              cost = upgradeCost current kind
          in if upgradePoints world < cost then g
             else
               let nextLevel = levelOf current kind + 1;
                   nextUpgrades = setLevel current kind nextLevel;
                   world1 = world\<lparr>upgradePoints := upgradePoints world - cost\<rparr>;
                   world2 = (if kind = Shield
                             then world1\<lparr>player := (player world1)
                                    \<lparr>shieldCharges := shieldCharges (player world1) + 1\<rparr>\<rparr>
                             else world1)
               in g\<lparr>upgradesRef := nextUpgrades, worldRef := Some world2,
                    tones := (if audioRef g
                              then playTone (660 + of_int nextLevel * 40) 0.15 Square (tones g)
                              else tones g)\<rparr>)"

text \<open>The effect on \<open>upgrades.shield\<close> (lines 734 to 743).\<close>

definition syncShield :: "Game \<Rightarrow> Game" where
  "syncShield g =
    (case worldRef g of
       None \<Rightarrow> g
     | Some world \<Rightarrow>
        let shieldLevel = 1 + shield (upgradesRef g)
        in if shieldCharges (player world) < shieldLevel
           then g\<lparr>worldRef := Some (world\<lparr>player := (player world)\<lparr>shieldCharges := shieldLevel\<rparr>\<rparr>)\<rparr>
           else g)"

subsection \<open>Input handlers and the event loop\<close>

datatype KeyCode = ArrowLeft | KeyA | ArrowRight | KeyD | Space | ArrowUp | KeyW | KeyP | OtherKey

definition handleKeyDown :: "KeyCode \<Rightarrow> AudioOutcome \<Rightarrow> real \<Rightarrow> Game \<Rightarrow> Game" where
  "handleKeyDown code out now g =
    (case worldRef g of
       None \<Rightarrow> g
     | Some world \<Rightarrow>
        let i1 = (if code = ArrowLeft \<or> code = KeyA then (inputs world)\<lparr>left := True\<rparr>
                  else inputs world);
            i2 = (if code = ArrowRight \<or> code = KeyD then i1\<lparr>right := True\<rparr> else i1);
            i3 = (if code = Space \<or> code = ArrowUp \<or> code = KeyW then i2\<lparr>jumpQueued := True\<rparr>
                  else i2);
            g1 = g\<lparr>worldRef := Some (world\<lparr>inputs := i3\<rparr>)\<rparr>
        in if code = KeyP then togglePause out now g1 else g1)"

definition handleKeyUp :: "KeyCode \<Rightarrow> Game \<Rightarrow> Game" where
  "handleKeyUp code g =
    (case worldRef g of
       None \<Rightarrow> g
     | Some world \<Rightarrow>
        let i1 = (if code = ArrowLeft \<or> code = KeyA then (inputs world)\<lparr>left := False\<rparr>
                  else inputs world);
            i2 = (if code = ArrowRight \<or> code = KeyD then i1\<lparr>right := False\<rparr> else i1);
            i3 = (if code = Space \<or> code = ArrowUp \<or> code = KeyW then i2\<lparr>jumpQueued := False\<rparr>
                  else i2)
        in g\<lparr>worldRef := Some (world\<lparr>inputs := i3\<rparr>)\<rparr>)"

text \<open>Everything that can happen to the component after it is mounted. The browser decides
  when a frame callback or an effect runs; here a frame and the shield effect may occur at
  any moment, which covers every schedule the browser can choose.\<close>

datatype Event =
    StartGame AudioOutcome real
  | TogglePause AudioOutcome real
  | RestartGame AudioOutcome real
  | KeyDown KeyCode AudioOutcome real
  | KeyUp KeyCode
  | Frame string FrameEnv
  | ApplyUpgrade UpgradeKind
  | ShieldEffect
  | SetPlayerName string

fun handle :: "Game \<Rightarrow> Event \<Rightarrow> Game" where
  "handle g (StartGame out now) = startGame out now g"
| "handle g (TogglePause out now) = togglePause out now g"
| "handle g (RestartGame out now) = restartGame out now g"
| "handle g (KeyDown code out now) = handleKeyDown code out now g"
| "handle g (KeyUp code) = handleKeyUp code g"
| "handle g (Frame savedName env) = renderFrame savedName env g"
| "handle g (ApplyUpgrade kind) = applyUpgrade kind g"
| "handle g ShieldEffect = syncShield g"
| "handle g (SetPlayerName nm) = g\<lparr>playerName := nm\<rparr>"

text \<open>The component as mounted: no run, the initial upgrade levels, the leaderboard and
  the name as read from local storage.\<close>

definition initialGame :: "LeaderboardEntry list \<Rightarrow> string \<Rightarrow> Game" where
  "initialGame board nm =
    \<lparr>worldRef = None, upgradesRef = \<lparr>speed = 0, jump = 0, shield = 1\<rparr>, frameRef = 0,
     audioRef = False, music = False, tones = [], idCounter = 0, leaderboard = board,
     playerName = nm\<rparr>"

definition run :: "Game \<Rightarrow> Event list \<Rightarrow> Game" where
  "run g evs = foldl handle g evs"

subsection \<open>Auxiliary notions for the properties\<close>

definition ids :: "World \<Rightarrow> int list" where
  "ids w = map eid (entities w)"

text \<open>The state of a tick when the collision loop begins (world, tones, identifier
  counter), the array the loop walks, the player it tests against, the state when the loop
  has ended, and the elapsed-time term of line 553.\<close>

definition preCollision :: "FrameEnv \<Rightarrow> Game \<Rightarrow> World \<Rightarrow> World \<times> Tone list \<times> int" where
  "preCollision env g w =
    beforeCollisions env (upgradesRef g) (audioRef g) (frameRef g + 1) (w, tones g, idCounter g)"

definition snapshot :: "FrameEnv \<Rightarrow> Game \<Rightarrow> World \<Rightarrow> Entity list" where
  "snapshot env g w = entities (fst (preCollision env g w))"

definition tickPlayer :: "FrameEnv \<Rightarrow> Game \<Rightarrow> World \<Rightarrow> Player" where
  "tickPlayer env g w = player (fst (preCollision env g w))"

definition afterCollisions :: "FrameEnv \<Rightarrow> Game \<Rightarrow> World \<Rightarrow> World \<times> Tone list" where
  "afterCollisions env g w =
    resolveCollisions (perfNow env) (frameRef g + 1) (audioRef g)
      (fst (preCollision env g w), fst (snd (preCollision env g w)))"

definition accrual :: "FrameEnv \<Rightarrow> World \<Rightarrow> real" where
  "accrual env w = (frameTime env - lastFrame w) * 0.35 * speedScale (getLevel (score w))"

text \<open>An entity overlapping the player is a pickup (data packet) or a hazard (firewall,
  virus).\<close>

definition pickupHit :: "Player \<Rightarrow> nat \<Rightarrow> Entity \<Rightarrow> bool" where
  "pickupHit p frame e = (etype e = Data \<and> collides p frame e)"

definition hazardHit :: "Player \<Rightarrow> nat \<Rightarrow> Entity \<Rightarrow> bool" where
  "hazardHit p frame e = (etype e \<noteq> Data \<and> collides p frame e)"

definition defenceless :: "real \<Rightarrow> Player \<Rightarrow> bool" where
  "defenceless timeNow p = (shieldCharges p = 0 \<and> \<not> timeNow < invulnerableUntil p)"

text \<open>Identifiers in the run are pairwise different and none exceeds the counter of
  \<open>createUniqueId\<close>.\<close>

definition uniqueIds :: "Game \<Rightarrow> bool" where
  "uniqueIds g =
     (case worldRef g of None \<Rightarrow> True
      | Some w \<Rightarrow> distinct (ids w) \<and> (\<forall>i \<in> set (ids w). i \<le> idCounter g))"

text \<open>The identifier has been handed out and no entity of the run carries it.\<close>

definition absent :: "int \<Rightarrow> Game \<Rightarrow> bool" where
  "absent i g = (i \<le> idCounter g \<and>
     (case worldRef g of None \<Rightarrow> True | Some w \<Rightarrow> i \<notin> set (ids w)))"

text \<open>The shield level is at least its initial value 1, a run is never left in status
  \<open>idle\<close>, and the shield charges are not negative.\<close>

definition shieldInv :: "Game \<Rightarrow> bool" where
  "shieldInv g = (1 \<le> shield (upgradesRef g) \<and>
     (case worldRef g of None \<Rightarrow> True
      | Some w \<Rightarrow> status w \<noteq> Idle \<and> 0 \<le> shieldCharges (player w)))"

text \<open>Events that keep the current run: all but the two that allocate a new one.\<close>

fun sameRun :: "Event \<Rightarrow> bool" where
  "sameRun (StartGame out now) = False"
| "sameRun (RestartGame out now) = False"
| "sameRun ev = True"

definition frozenAt :: "real \<Rightarrow> Game \<Rightarrow> bool" where
  "frozenAt sc g =
     (case worldRef g of None \<Rightarrow> False | Some w \<Rightarrow> status w = Over \<and> score w = sc)"

subsection \<open>Concrete states\<close>

text \<open>A run in progress, 120 frames in: the player stands at its starting place, a firewall
  and a data packet are close, the last frame was at 1000 ms. The shield charges and the
  end of the invulnerability window are parameters. \<open>demoEnv\<close> is a frame 16 ms later;
  \<open>movedFirewall\<close> and \<open>movedPacket\<close> are the two entities after that frame has moved
  them.\<close>

definition demoFirewall :: Entity where
  "demoFirewall = \<lparr>eid = 1, etype = Firewall, ex = 190, ey = 360, ewidth = 50, eheight = 60,
     espeed = 4.2, amplitude = None, phase = None\<rparr>"

definition demoPacket :: Entity where
  "demoPacket = \<lparr>eid = 2, etype = Data, ex = 200, ey = 330, ewidth = 36, eheight = 36,
     espeed = 4.1, amplitude = Some 18, phase = Some 0\<rparr>"

definition demoWorld :: "int \<Rightarrow> real \<Rightarrow> World" where
  "demoWorld charges until =
    \<lparr>status = Running, player = (initialPlayer charges)\<lparr>invulnerableUntil := until\<rparr>,
     entities = [demoFirewall, demoPacket], lastFrame = 1000,
     lastSpawn = \<lparr>firewall = 1000, virus = 1000, data = 1000\<rparr>, score = 100,
     upgradePoints = 0, wlevel = 1,
     inputs = \<lparr>left = False, right = False, jumpQueued = False\<rparr>\<rparr>"

definition demoGame :: "int \<Rightarrow> real \<Rightarrow> Game" where
  "demoGame charges until =
    \<lparr>worldRef = Some (demoWorld charges until), upgradesRef = \<lparr>speed = 0, jump = 0, shield = 1\<rparr>,
     frameRef = 120, audioRef = True, music = True, tones = [], idCounter = 2,
     leaderboard = [], playerName = ''Cipher''\<rparr>"

definition demoEnv :: FrameEnv where
  "demoEnv = \<lparr>frameTime = 1016, perfNow = 1016, virusRandom = 0.3, dataRandomY = 0.5,
     dataRandomPhase = 0.25, dateNow = 1700000000000\<rparr>"

definition movedFirewall :: Entity where
  "movedFirewall = demoFirewall\<lparr>ex := 105646 / 625\<rparr>"

definition movedPacket :: Entity where
  "movedPacket = demoPacket\<lparr>ex := 112148 / 625, ey := 330 + 432 * sin (121 / 16) / 625\<rparr>"

text \<open>What may follow the tick: another frame, a jump key, a purchase, the pause key.\<close>

definition laterEnv :: FrameEnv where
  "laterEnv = \<lparr>frameTime = 1033, perfNow = 1033, virusRandom = 0.7, dataRandomY = 0.2,
     dataRandomPhase = 0.5, dateNow = 1700000000017\<rparr>"

definition laterEvents :: "Event list" where
  "laterEvents = [Frame ''Cipher'' laterEnv, KeyDown Space AudioReady 1040, ApplyUpgrade Speed,
     KeyDown KeyP AudioReady 1050, Frame ''Cipher'' laterEnv]"

text \<open>The state that the frame \<open>demoEnv\<close> leaves behind when the player had one shield
  charge: the charge is used, both entities are gone.\<close>

definition afterPickup :: World where
  "afterPickup = (demoWorld 0 2216)\<lparr>lastFrame := 1016, entities := [], score := 1128 / 5,
     upgradePoints := 1\<rparr>"

definition afterPickupGame :: Game where
  "afterPickupGame = (demoGame 1 0)\<lparr>worldRef := Some afterPickup, frameRef := 121,
     tones := [\<lparr>frequency = 160, duration = 0.3, wave = Sawtooth\<rparr>,
               \<lparr>frequency = 880, duration = 0.16, wave = Square\<rparr>]\<rparr>"

text \<open>The same run with a jump requested, in the air and on the ground.\<close>

definition airborneWorld :: World where
  "airborneWorld = (demoWorld 1 0)
     \<lparr>player := (player (demoWorld 1 0))\<lparr>py := 300, vy := - 3, onGround := False\<rparr>,
      inputs := \<lparr>left = False, right = False, jumpQueued = True\<rparr>\<rparr>"

definition groundedWorld :: World where
  "groundedWorld = (demoWorld 1 0)\<lparr>inputs := \<lparr>left = False, right = False, jumpQueued = True\<rparr>\<rparr>"

text \<open>The same run with a given currency; a state with an idle run and plenty of currency;
  a short session; a leaderboard of three and a full one.\<close>

definition shopGame :: "int \<Rightarrow> Game" where
  "shopGame points = (demoGame 1 0)\<lparr>worldRef := Some ((demoWorld 1 0)\<lparr>upgradePoints := points\<rparr>)\<rparr>"

definition richIdle :: Game where
  "richIdle = (initialGame [] ''Cipher'')
     \<lparr>worldRef := Some ((resetWorld 2 0)\<lparr>upgradePoints := 50\<rparr>), audioRef := True\<rparr>"


definition board3 :: "LeaderboardEntry list" where
  "board3 = [\<lparr>name = ''Cipher'', entryScore = 900, timestamp = 10\<rparr>,
             \<lparr>name = ''Neo'', entryScore = 400, timestamp = 20\<rparr>,
             \<lparr>name = ''Trinity'', entryScore = 100, timestamp = 30\<rparr>]"

definition board5 :: "LeaderboardEntry list" where
  "board5 = [\<lparr>name = ''Cipher'', entryScore = 500, timestamp = 10\<rparr>,
             \<lparr>name = ''Neo'', entryScore = 400, timestamp = 20\<rparr>,
             \<lparr>name = ''Trinity'', entryScore = 300, timestamp = 30\<rparr>,
             \<lparr>name = ''Morpheus'', entryScore = 200, timestamp = 40\<rparr>,
             \<lparr>name = ''Tank'', entryScore = 100, timestamp = 50\<rparr>]"

section \<open>Properties\<close>

subsection \<open>What the stages of a tick leave unchanged\<close>

lemma moveHorizontal_fields:
  "status (moveHorizontal u d w) = status w"
  "entities (moveHorizontal u d w) = entities w"
  "score (moveHorizontal u d w) = score w"
  "upgradePoints (moveHorizontal u d w) = upgradePoints w"
  "lastSpawn (moveHorizontal u d w) = lastSpawn w"
  "inputs (moveHorizontal u d w) = inputs w"
  "shieldCharges (player (moveHorizontal u d w)) = shieldCharges (player w)"
  "invulnerableUntil (player (moveHorizontal u d w)) = invulnerableUntil (player w)"
  by (simp_all add: moveHorizontal_def Let_def)

lemma moveHorizontal_jumpQueued:
  "player (moveHorizontal u d (w\<lparr>inputs := (inputs w)\<lparr>jumpQueued := b\<rparr>\<rparr>)) = player (moveHorizontal u d w)"
  by (simp add: moveHorizontal_def Let_def)

lemma jumpStep_fields:
  "status (fst (jumpStep u a st)) = status (fst st)"
  "entities (fst (jumpStep u a st)) = entities (fst st)"
  "score (fst (jumpStep u a st)) = score (fst st)"
  "upgradePoints (fst (jumpStep u a st)) = upgradePoints (fst st)"
  "lastSpawn (fst (jumpStep u a st)) = lastSpawn (fst st)"
  "shieldCharges (player (fst (jumpStep u a st))) = shieldCharges (player (fst st))"
  "invulnerableUntil (player (fst (jumpStep u a st))) = invulnerableUntil (player (fst st))"
  by (simp_all add: jumpStep_def split: prod.splits)

lemma gravityStep_fields:
  "status (gravityStep d w) = status w"
  "entities (gravityStep d w) = entities w"
  "score (gravityStep d w) = score w"
  "upgradePoints (gravityStep d w) = upgradePoints w"
  "lastSpawn (gravityStep d w) = lastSpawn w"
  "shieldCharges (player (gravityStep d w)) = shieldCharges (player w)"
  "invulnerableUntil (player (gravityStep d w)) = invulnerableUntil (player w)"
  by (simp_all add: gravityStep_def Let_def)

lemma spawnStep_fields:
  "status (fst (spawnStep env lv st)) = status (fst st)"
  "player (fst (spawnStep env lv st)) = player (fst st)"
  "score (fst (spawnStep env lv st)) = score (fst st)"
  "upgradePoints (fst (spawnStep env lv st)) = upgradePoints (fst st)"
  by (simp_all add: spawnStep_def Let_def spawnFirewall_def spawnVirus_def spawnDataPacket_def createUniqueId_def split: prod.splits)

lemma spawnStep_ids:
  "\<exists>new. ids (fst (spawnStep env lv (w, c))) = ids w @ new \<and> distinct new \<and>
         set new \<subseteq> {c + 1 .. snd (spawnStep env lv (w, c))}"
  by (simp add: spawnStep_def Let_def spawnFirewall_def spawnVirus_def spawnDataPacket_def
        createUniqueId_def ids_def)

lemma spawnStep_counter: "c \<le> snd (spawnStep env lv (w, c))"
  by (simp add: spawnStep_def Let_def spawnFirewall_def spawnVirus_def spawnDataPacket_def
        createUniqueId_def)

lemma advanceEntity_eid: "eid (advanceEntity u lv f d e) = eid e"
  by (simp add: advanceEntity_def Let_def)

lemma advanceEntities_fields:
  "status (advanceEntities u lv f d w) = status w"
  "player (advanceEntities u lv f d w) = player w"
  "score (advanceEntities u lv f d w) = score w"
  "upgradePoints (advanceEntities u lv f d w) = upgradePoints w"
  by (simp_all add: advanceEntities_def)

lemma advanceEntities_ids_subset: "set (ids (advanceEntities u lv f d w)) \<subseteq> set (ids w)"
  by (auto simp: advanceEntities_def ids_def advanceEntity_eid)

lemma advanceEntities_ids_distinct:
  "distinct (ids w) \<Longrightarrow> distinct (ids (advanceEntities u lv f d w))"
proof -
  assume d: "distinct (ids w)"
  have "map eid (map (advanceEntity u lv f d) (entities w)) = ids w"
    by (simp add: ids_def advanceEntity_eid)
  with d have "distinct (map eid (map (advanceEntity u lv f d) (entities w)))"
    by simp
  then show ?thesis
    unfolding advanceEntities_def ids_def by (simp add: distinct_map_filter)
qed

lemma beforeCollisions_unfold:
  "beforeCollisions env u a f (w, l, c) =
    (let ds = (frameTime env - lastFrame w) / (1000 / 60);
         lv = getLevel (score w);
         j = jumpStep u a (moveHorizontal u ds (w\<lparr>lastFrame := frameTime env, wlevel := level lv\<rparr>), l);
         s = spawnStep env lv (gravityStep ds (fst j), c)
     in (advanceEntities u lv f ds (fst s), snd j, snd s))"
  by (simp add: beforeCollisions_def Let_def split: prod.splits)

lemma beforeCollisions_fields:
  "status (fst (beforeCollisions env u a f (w, l, c))) = status w"
  "score (fst (beforeCollisions env u a f (w, l, c))) = score w"
  "upgradePoints (fst (beforeCollisions env u a f (w, l, c))) = upgradePoints w"
  "shieldCharges (player (fst (beforeCollisions env u a f (w, l, c)))) = shieldCharges (player w)"
  "invulnerableUntil (player (fst (beforeCollisions env u a f (w, l, c)))) = invulnerableUntil (player w)"
  by (simp_all add: beforeCollisions_unfold Let_def spawnStep_fields advanceEntities_fields
        gravityStep_fields jumpStep_fields moveHorizontal_fields)

lemma beforeCollisions_counter: "c \<le> snd (snd (beforeCollisions env u a f (w, l, c)))"
  by (simp add: beforeCollisions_unfold Let_def spawnStep_counter)

lemma beforeCollisions_ids:
  assumes "distinct (ids w)" and "\<forall>i \<in> set (ids w). i \<le> c"
  shows "distinct (ids (fst (beforeCollisions env u a f (w, l, c))))"
    and "set (ids (fst (beforeCollisions env u a f (w, l, c))))
          \<subseteq> set (ids w) \<union> {c + 1 .. snd (snd (beforeCollisions env u a f (w, l, c)))}"
proof -
  define ds where "ds = (frameTime env - lastFrame w) / (1000 / 60)"
  define lv where "lv = getLevel (score w)"
  define w4 where "w4 = gravityStep ds (fst (jumpStep u a
     (moveHorizontal u ds (w\<lparr>lastFrame := frameTime env, wlevel := level lv\<rparr>), l)))"
  have bc: "beforeCollisions env u a f (w, l, c) =
      (advanceEntities u lv f ds (fst (spawnStep env lv (w4, c))),
       snd (jumpStep u a (moveHorizontal u ds (w\<lparr>lastFrame := frameTime env, wlevel := level lv\<rparr>), l)),
       snd (spawnStep env lv (w4, c)))"
    by (simp add: beforeCollisions_unfold Let_def ds_def lv_def w4_def)
  have w4: "ids w4 = ids w"
    by (simp add: ids_def w4_def gravityStep_fields jumpStep_fields moveHorizontal_fields)
  obtain new where new: "ids (fst (spawnStep env lv (w4, c))) = ids w4 @ new" "distinct new"
      "set new \<subseteq> {c + 1 .. snd (spawnStep env lv (w4, c))}"
    using spawnStep_ids by blast
  have d5: "distinct (ids (fst (spawnStep env lv (w4, c))))"
    using assms new w4 by fastforce
  show "distinct (ids (fst (beforeCollisions env u a f (w, l, c))))"
    by (simp add: bc advanceEntities_ids_distinct d5)
  have "set (ids (advanceEntities u lv f ds (fst (spawnStep env lv (w4, c)))))
        \<subseteq> set (ids (fst (spawnStep env lv (w4, c))))"
    by (rule advanceEntities_ids_subset)
  also have "\<dots> \<subseteq> set (ids w) \<union> {c + 1 .. snd (spawnStep env lv (w4, c))}"
    using new w4 by auto
  finally show "set (ids (fst (beforeCollisions env u a f (w, l, c))))
          \<subseteq> set (ids w) \<union> {c + 1 .. snd (snd (beforeCollisions env u a f (w, l, c)))}"
    by (simp add: bc)
qed

lemma beforeCollisions_ids_subset:
  "set (ids (fst (beforeCollisions env u a f (w, l, c))))
     \<subseteq> set (ids w) \<union> {c + 1 .. snd (snd (beforeCollisions env u a f (w, l, c)))}"
proof -
  define ds where "ds = (frameTime env - lastFrame w) / (1000 / 60)"
  define lv where "lv = getLevel (score w)"
  define w4 where "w4 = gravityStep ds (fst (jumpStep u a
     (moveHorizontal u ds (w\<lparr>lastFrame := frameTime env, wlevel := level lv\<rparr>), l)))"
  have bc: "beforeCollisions env u a f (w, l, c) =
      (advanceEntities u lv f ds (fst (spawnStep env lv (w4, c))),
       snd (jumpStep u a (moveHorizontal u ds (w\<lparr>lastFrame := frameTime env, wlevel := level lv\<rparr>), l)),
       snd (spawnStep env lv (w4, c)))"
    by (simp add: beforeCollisions_unfold Let_def ds_def lv_def w4_def)
  have w4: "ids w4 = ids w"
    by (simp add: ids_def w4_def gravityStep_fields jumpStep_fields moveHorizontal_fields)
  obtain new where new: "ids (fst (spawnStep env lv (w4, c))) = ids w4 @ new"
      "set new \<subseteq> {c + 1 .. snd (spawnStep env lv (w4, c))}"
    using spawnStep_ids by blast
  have "set (ids (advanceEntities u lv f ds (fst (spawnStep env lv (w4, c)))))
        \<subseteq> set (ids (fst (spawnStep env lv (w4, c))))"
    by (rule advanceEntities_ids_subset)
  also have "\<dots> \<subseteq> set (ids w) \<union> {c + 1 .. snd (spawnStep env lv (w4, c))}"
    using new w4 by auto
  finally show ?thesis by (simp add: bc)
qed

lemma preCollision_fields:
  "status (fst (preCollision env g w)) = status w"
  "score (fst (preCollision env g w)) = score w"
  "upgradePoints (fst (preCollision env g w)) = upgradePoints w"
  "shieldCharges (player (fst (preCollision env g w))) = shieldCharges (player w)"
  "invulnerableUntil (player (fst (preCollision env g w))) = invulnerableUntil (player w)"
  by (simp_all add: preCollision_def beforeCollisions_fields)

subsection \<open>The collision loop\<close>

text \<open>Every step of the loop either keeps the entity collection or filters it, so the
  collection after the loop is a filtered copy of the collection before.\<close>

lemma collisionStep_filter:
  "\<exists>P. entities (fst (collisionStep t f a st e)) = filter P (entities (fst st))"
proof (cases "entities (fst (collisionStep t f a st e)) = entities (fst st)")
  case True
  then have "entities (fst (collisionStep t f a st e)) = filter (\<lambda>_. True) (entities (fst st))"
    by simp
  then show ?thesis by blast
next
  case False
  then have "entities (fst (collisionStep t f a st e)) =
             filter (\<lambda>x. eid x \<noteq> eid e) (entities (fst st))"
    by (auto simp: collisionStep_def split: prod.splits if_splits)
  then show ?thesis by blast
qed

lemma resolve_filter:
  "\<exists>P. entities (fst (foldl (collisionStep t f a) st xs)) = filter P (entities (fst st))"
proof (induction xs arbitrary: st)
  case Nil
  have "entities (fst st) = filter (\<lambda>_. True) (entities (fst st))" by simp
  then show ?case by (simp del: filter_True) blast
next
  case (Cons x xs)
  obtain P where P: "entities (fst (collisionStep t f a st x)) = filter P (entities (fst st))"
    using collisionStep_filter by blast
  obtain Q where "entities (fst (foldl (collisionStep t f a) (collisionStep t f a st x) xs))
      = filter Q (entities (fst (collisionStep t f a st x)))"
    using Cons.IH by blast
  with P have "entities (fst (foldl (collisionStep t f a) st (x # xs)))
      = filter (\<lambda>e. P e \<and> Q e) (entities (fst st))"
    by simp
  then show ?case by blast
qed

lemma resolve_absent:
  "i \<notin> set (ids (fst st)) \<Longrightarrow> i \<notin> set (ids (fst (foldl (collisionStep t f a) st xs)))"
proof -
  assume i: "i \<notin> set (ids (fst st))"
  obtain P where "entities (fst (foldl (collisionStep t f a) st xs)) = filter P (entities (fst st))"
    using resolve_filter by blast
  with i show ?thesis by (auto simp: ids_def)
qed

text \<open>The loop never moves or resizes the player, so whether an entity overlaps the player
  does not depend on how far the loop has come.\<close>

lemma collisionStep_player_box:
  "px (player (fst (collisionStep t f a st e))) = px (player (fst st))"
  "py (player (fst (collisionStep t f a st e))) = py (player (fst st))"
  "pwidth (player (fst (collisionStep t f a st e))) = pwidth (player (fst st))"
  "pheight (player (fst (collisionStep t f a st e))) = pheight (player (fst st))"
  by (simp_all add: collisionStep_def split: prod.splits)

lemma collides_box:
  "px p = px q \<Longrightarrow> py p = py q \<Longrightarrow> pwidth p = pwidth q \<Longrightarrow> pheight p = pheight q \<Longrightarrow>
   collides p f e = collides q f e"
  by (simp add: collides_def)

lemma collisionStep_collides:
  "collides (player (fst (collisionStep t f a st e))) fr x = collides (player (fst st)) fr x"
  by (rule collides_box) (simp_all add: collisionStep_player_box)

lemma pickupHit_step:
  "pickupHit (player (fst (collisionStep t f a st e))) fr = pickupHit (player (fst st)) fr"
  by (rule ext) (simp add: pickupHit_def collisionStep_collides)

lemma collisionStep_status:
  "status (fst (collisionStep t f a st e)) = status (fst st) \<or>
   status (fst (collisionStep t f a st e)) = Over"
  by (simp add: collisionStep_def split: prod.splits)

lemma resolve_status:
  "status (fst (foldl (collisionStep t f a) st xs)) = status (fst st) \<or>
   status (fst (foldl (collisionStep t f a) st xs)) = Over"
proof (induction xs arbitrary: st)
  case Nil then show ?case by simp
next
  case (Cons x xs)
  show ?case using Cons.IH[of "collisionStep t f a st x"] collisionStep_status[of t f a st x]
    by auto
qed

lemma collisionStep_stays_over:
  "status (fst st) = Over \<Longrightarrow> status (fst (collisionStep t f a st e)) = Over"
  using collisionStep_status[of t f a st e] by auto

lemma resolve_stays_over:
  "status (fst st) = Over \<Longrightarrow> status (fst (foldl (collisionStep t f a) st xs)) = Over"
  by (induction xs arbitrary: st) (simp_all add: collisionStep_stays_over)

lemma collisionStep_shield:
  "0 \<le> shieldCharges (player (fst st)) \<Longrightarrow>
   0 \<le> shieldCharges (player (fst (collisionStep t f a st e)))"
  by (cases st) (auto simp: collisionStep_def)

lemma resolve_shield:
  "0 \<le> shieldCharges (player (fst st)) \<Longrightarrow>
   0 \<le> shieldCharges (player (fst (foldl (collisionStep t f a) st xs)))"
  by (induction xs arbitrary: st) (simp_all add: collisionStep_shield)

lemma collisionStep_invulnerable_player:
  "timeNow < invulnerableUntil (player (fst st)) \<Longrightarrow>
   player (fst (collisionStep timeNow f a st e)) = player (fst st) \<and>
   status (fst (collisionStep timeNow f a st e)) = status (fst st)"
  by (cases st) (simp add: collisionStep_def)

lemma resolve_invulnerable:
  "timeNow < invulnerableUntil (player (fst st)) \<Longrightarrow>
   player (fst (foldl (collisionStep timeNow f a) st xs)) = player (fst st) \<and>
   status (fst (foldl (collisionStep timeNow f a) st xs)) = status (fst st)"
proof (induction xs arbitrary: st)
  case Nil
  then show ?case by simp
next
  case (Cons x xs)
  from Cons.prems have s: "player (fst (collisionStep timeNow f a st x)) = player (fst st)"
      "status (fst (collisionStep timeNow f a st x)) = status (fst st)"
    using collisionStep_invulnerable_player by blast+
  with Cons.prems have "timeNow < invulnerableUntil (player (fst (collisionStep timeNow f a st x)))"
    by simp
  from Cons.IH[OF this] s show ?case by simp
qed

text \<open>Score and currency after the loop: one bonus for every element of the walked array that
  is a data packet overlapping the player.\<close>

lemma collisionStep_score:
  "score (fst (collisionStep t f a st e)) =
     score (fst st) + (if pickupHit (player (fst st)) f e then 120 else 0)"
  "upgradePoints (fst (collisionStep t f a st e)) =
     upgradePoints (fst st) + (if pickupHit (player (fst st)) f e then 1 else 0)"
  by (cases st; simp add: collisionStep_def pickupHit_def)+

lemma resolve_score:
  "score (fst (foldl (collisionStep t f a) st xs)) =
     score (fst st) + 120 * real (length (filter (pickupHit (player (fst st)) f) xs))"
proof (induction xs arbitrary: st)
  case Nil
  then show ?case by simp
next
  case (Cons x xs)
  have "filter (pickupHit (player (fst (collisionStep t f a st x))) f) xs =
        filter (pickupHit (player (fst st)) f) xs"
    by (simp add: pickupHit_step)
  then show ?case
    by (simp add: Cons.IH collisionStep_score)
qed

lemma resolve_points:
  "upgradePoints (fst (foldl (collisionStep t f a) st xs)) =
     upgradePoints (fst st) + int (length (filter (pickupHit (player (fst st)) f) xs))"
proof (induction xs arbitrary: st)
  case Nil
  then show ?case by simp
next
  case (Cons x xs)
  have "filter (pickupHit (player (fst (collisionStep t f a st x))) f) xs =
        filter (pickupHit (player (fst st)) f) xs"
    by (simp add: pickupHit_step)
  then show ?case
    by (simp add: Cons.IH collisionStep_score)
qed

lemma length_filter_card:
  assumes "distinct (map f xs)"
  shows "length (filter P xs) = card (f ` {x \<in> set xs. P x})"
proof -
  have "distinct (map f (filter P xs))"
    using assms by (rule distinct_map_filter)
  then have "card (set (map f (filter P xs))) = length (map f (filter P xs))"
    by (rule distinct_card)
  moreover have "set (map f (filter P xs)) = f ` {x \<in> set xs. P x}"
    by auto
  ultimately show ?thesis by simp
qed

lemma collisionStep_removes:
  "pickupHit (player (fst st)) f e \<Longrightarrow> eid e \<notin> set (ids (fst (collisionStep t f a st e)))"
  by (cases st) (auto simp: collisionStep_def pickupHit_def ids_def)

lemma resolve_removes:
  "e \<in> set xs \<Longrightarrow> pickupHit (player (fst st)) f e \<Longrightarrow>
   eid e \<notin> set (ids (fst (foldl (collisionStep t f a) st xs)))"
proof (induction xs arbitrary: st)
  case Nil
  then show ?case by simp
next
  case (Cons x xs)
  show ?case
  proof (cases "x = e")
    case True
    have "eid e \<notin> set (ids (fst (collisionStep t f a st e)))"
      using Cons.prems(2) by (rule collisionStep_removes)
    then show ?thesis using True by (simp add: resolve_absent)
  next
    case False
    with Cons.prems have "e \<in> set xs" by simp
    moreover have "pickupHit (player (fst (collisionStep t f a st x))) f e"
      using Cons.prems(2) by (simp add: pickupHit_step)
    ultimately show ?thesis using Cons.IH by simp
  qed
qed

text \<open>With no charge left and no invulnerability the loop leaves the player as it is, and one
  overlapping hazard ends the run.\<close>

lemma collisionStep_defenceless:
  "defenceless t (player (fst st)) \<Longrightarrow> player (fst (collisionStep t f a st e)) = player (fst st)"
  by (cases st) (simp add: collisionStep_def defenceless_def)

lemma collisionStep_lethal:
  "defenceless t (player (fst st)) \<Longrightarrow> hazardHit (player (fst st)) f e \<Longrightarrow>
   status (fst (collisionStep t f a st e)) = Over"
  by (cases st) (simp add: collisionStep_def defenceless_def hazardHit_def)

lemma resolve_lethal:
  "defenceless t (player (fst st)) \<Longrightarrow> e \<in> set xs \<Longrightarrow> hazardHit (player (fst st)) f e \<Longrightarrow>
   status (fst (foldl (collisionStep t f a) st xs)) = Over"
proof (induction xs arbitrary: st)
  case Nil
  then show ?case by simp
next
  case (Cons x xs)
  have p: "player (fst (collisionStep t f a st x)) = player (fst st)"
    using Cons.prems(1) by (rule collisionStep_defenceless)
  show ?case
  proof (cases "x = e")
    case True
    then have "status (fst (collisionStep t f a st x)) = Over"
      using Cons.prems collisionStep_lethal by blast
    then show ?thesis by (simp add: resolve_stays_over)
  next
    case False
    with Cons.prems have "e \<in> set xs" by simp
    then show ?thesis using Cons.IH[of "collisionStep t f a st x"] Cons.prems p by simp
  qed
qed

subsection \<open>The tick as a whole\<close>

lemma renderFrame_world:
  assumes "worldRef g = Some w" and "status w = Running"
  shows "worldRef (renderFrame nm env g) =
           Some ((fst (afterCollisions env g w))
                  \<lparr>score := score (fst (afterCollisions env g w)) + accrual env w\<rparr>)"
    and "idCounter (renderFrame nm env g) = snd (snd (preCollision env g w))"
    and "upgradesRef (renderFrame nm env g) = upgradesRef g"
    and "tones (renderFrame nm env g) = snd (afterCollisions env g w)"
  using assms
  by (simp_all add: renderFrame_def afterCollisions_def preCollision_def accrual_def Let_def
        stopAudio_def split: prod.splits)

lemma renderFrame_leaderboard:
  assumes "worldRef g = Some w" and "status w = Running"
  shows "leaderboard (renderFrame nm env g) =
     (if status (fst (afterCollisions env g w)) = Over
      then saveScore nm (of_int \<lfloor>score (fst (afterCollisions env g w)) + accrual env w\<rfloor>)
             (dateNow env) (leaderboard g)
      else leaderboard g)"
  using assms
  by (simp add: renderFrame_def afterCollisions_def preCollision_def accrual_def Let_def
        stopAudio_def split: prod.splits)

lemma renderFrame_running:
  assumes "worldRef g = Some w" and "status w = Running"
    and "status (fst (afterCollisions env g w)) = Running"
  shows "renderFrame nm env g =
     g\<lparr>worldRef := Some ((fst (afterCollisions env g w))
                  \<lparr>score := score (fst (afterCollisions env g w)) + accrual env w\<rparr>),
       frameRef := frameRef g + 1,
       tones := snd (afterCollisions env g w),
       idCounter := snd (snd (preCollision env g w))\<rparr>"
  using assms
  by (auto simp: renderFrame_def afterCollisions_def preCollision_def accrual_def Let_def
        split: prod.splits)

lemma renderFrame_not_running:
  "worldRef g = None \<or> (\<exists>w. worldRef g = Some w \<and> status w \<noteq> Running) \<Longrightarrow>
   renderFrame nm env g = g"
  by (auto simp: renderFrame_def)

lemma renderFrame_cases:
  obtains (skip) "renderFrame nm env g = g"
  | (tick) w where "worldRef g = Some w" "status w = Running"
proof (cases "\<exists>w. worldRef g = Some w \<and> status w = Running")
  case False
  then have "renderFrame nm env g = g"
    by (intro renderFrame_not_running) (cases "worldRef g", auto)
  then show ?thesis by (rule skip)
next
  case True
  then show ?thesis using tick by blast
qed

lemma afterCollisions_ids:
  "\<exists>P. ids (fst (afterCollisions env g w)) = map eid (filter P (entities (fst (preCollision env g w))))"
proof -
  obtain P where "entities (fst (afterCollisions env g w)) = filter P (entities (fst (preCollision env g w)))"
    unfolding afterCollisions_def resolveCollisions_def
    using resolve_filter[of "perfNow env" "frameRef g + 1" "audioRef g"
        "(fst (preCollision env g w), fst (snd (preCollision env g w)))"
        "entities (fst (preCollision env g w))"]
    by auto
  then show ?thesis by (auto simp: ids_def)
qed

lemma afterCollisions_subset:
  "set (ids (fst (afterCollisions env g w))) \<subseteq> set (ids (fst (preCollision env g w)))"
proof -
  obtain P where "ids (fst (afterCollisions env g w)) =
      map eid (filter P (entities (fst (preCollision env g w))))"
    using afterCollisions_ids by blast
  then show ?thesis by (auto simp: ids_def)
qed

lemma tick_world:
  assumes "worldRef g = Some w" "status w = Running"
  shows "worldRef (renderFrame nm env g) =
     Some ((fst (foldl (collisionStep (perfNow env) (frameRef g + 1) (audioRef g))
                   (fst (preCollision env g w), fst (snd (preCollision env g w)))
                   (snapshot env g w)))
            \<lparr>score := score (fst (foldl (collisionStep (perfNow env) (frameRef g + 1) (audioRef g))
                   (fst (preCollision env g w), fst (snd (preCollision env g w)))
                   (snapshot env g w))) + accrual env w\<rparr>)"
  using renderFrame_world(1)[OF assms, of nm env]
  by (simp add: afterCollisions_def resolveCollisions_def snapshot_def)

subsection \<open>Invariants of the event loop\<close>

lemma shieldInv_renderFrame:
  assumes "shieldInv g"
  shows "shieldInv (renderFrame nm env g)"
proof (cases rule: renderFrame_cases[of nm env g])
  case skip
  with assms show ?thesis by simp
next
  case (tick w)
  let ?pre = "preCollision env g w"
  let ?aft = "afterCollisions env g w"
  from assms tick have iw: "0 \<le> shieldCharges (player w)" and sh: "1 \<le> shield (upgradesRef g)"
    by (simp_all add: shieldInv_def)
  have st: "status (fst ?aft) \<noteq> Idle"
    using resolve_status[of "perfNow env" "frameRef g + 1" "audioRef g"
        "(fst ?pre, fst (snd ?pre))" "entities (fst ?pre)"] tick
    by (auto simp: afterCollisions_def resolveCollisions_def preCollision_def
        beforeCollisions_fields)
  have sc: "0 \<le> shieldCharges (player (fst ?aft))"
    unfolding afterCollisions_def resolveCollisions_def
    by (rule resolve_shield) (simp add: preCollision_def beforeCollisions_fields iw)
  show ?thesis
    using st sc sh by (simp add: shieldInv_def renderFrame_world[OF tick])
qed

lemma shieldInv_initial: "shieldInv (initialGame board nm)"
  by (simp add: shieldInv_def initialGame_def)

lemma shieldInv_startGame: "shieldInv g \<Longrightarrow> shieldInv (startGame ok now g)"
  by (simp add: shieldInv_def startGame_def ensureAudio_def resetWorld_def initialPlayer_def Let_def)

lemma shieldInv_stopAudio: "shieldInv g \<Longrightarrow> shieldInv (stopAudio g)"
  by (simp add: shieldInv_def stopAudio_def split: option.splits)

lemma shieldInv_togglePause: "shieldInv g \<Longrightarrow> shieldInv (togglePause ok now g)"
  by (auto simp: shieldInv_def togglePause_def ensureAudio_def stopAudio_def split: option.splits)

lemma shieldInv_inputs:
  "shieldInv g \<Longrightarrow> worldRef g = Some world \<Longrightarrow>
   shieldInv (g\<lparr>worldRef := Some (world\<lparr>inputs := x\<rparr>)\<rparr>)"
  by (simp add: shieldInv_def)

lemma shieldInv_keyDown: "shieldInv g \<Longrightarrow> shieldInv (handleKeyDown code ok now g)"
  unfolding handleKeyDown_def Let_def
  by (cases "worldRef g")
     (simp_all only: option.case shieldInv_inputs shieldInv_togglePause if_split, simp)

lemma shieldInv_keyUp: "shieldInv g \<Longrightarrow> shieldInv (handleKeyUp code g)"
  by (simp add: shieldInv_def handleKeyUp_def Let_def split: option.splits)

lemma shieldInv_applyUpgrade: "shieldInv g \<Longrightarrow> shieldInv (applyUpgrade kind g)"
  by (cases kind) (auto simp: shieldInv_def applyUpgrade_def Let_def split: option.splits)

lemma shieldInv_syncShield: "shieldInv g \<Longrightarrow> shieldInv (syncShield g)"
  by (auto simp: shieldInv_def syncShield_def Let_def split: option.splits)

lemma shieldInv_handle: "shieldInv g \<Longrightarrow> shieldInv (handle g ev)"
proof (cases ev)
  case (SetPlayerName nm)
  assume "shieldInv g"
  then show ?thesis by (simp add: SetPlayerName shieldInv_def split: option.splits)
qed (simp_all add: shieldInv_startGame shieldInv_togglePause restartGame_def shieldInv_stopAudio
      shieldInv_keyDown shieldInv_keyUp shieldInv_renderFrame shieldInv_applyUpgrade
      shieldInv_syncShield)

lemma shieldInv_run: "shieldInv g \<Longrightarrow> shieldInv (run g evs)"
  unfolding run_def by (induction evs arbitrary: g) (simp_all add: shieldInv_handle)

lemma run_never_idle:
  "worldRef (run (initialGame board nm) evs) = Some w \<Longrightarrow> status w \<noteq> Idle"
  using shieldInv_run[OF shieldInv_initial, of board nm evs] by (simp add: shieldInv_def)

lemma uniqueIds_renderFrame:
  assumes "uniqueIds g"
  shows "uniqueIds (renderFrame nm env g)"
proof (cases rule: renderFrame_cases[of nm env g])
  case skip
  with assms show ?thesis by simp
next
  case (tick w)
  let ?pre = "preCollision env g w"
  let ?aft = "afterCollisions env g w"
  from assms tick have iw: "distinct (ids w)" "\<forall>i \<in> set (ids w). i \<le> idCounter g"
    by (simp_all add: uniqueIds_def)
  obtain P where P: "ids (fst ?aft) = map eid (filter P (entities (fst ?pre)))"
    using afterCollisions_ids by blast
  have dpre: "distinct (ids (fst ?pre))"
    unfolding preCollision_def using iw by (intro beforeCollisions_ids(1)) auto
  have spre: "set (ids (fst ?pre)) \<subseteq> set (ids w) \<union> {idCounter g + 1 .. snd (snd ?pre)}"
    unfolding preCollision_def using iw by (intro beforeCollisions_ids(2)) auto
  have cnt: "idCounter g \<le> snd (snd ?pre)"
    unfolding preCollision_def by (rule beforeCollisions_counter)
  have d: "distinct (ids (fst ?aft))"
    unfolding P using dpre by (simp add: ids_def distinct_map_filter)
  have b: "\<forall>i \<in> set (ids (fst ?aft)). i \<le> snd (snd ?pre)"
  proof
    fix i assume "i \<in> set (ids (fst ?aft))"
    then have "i \<in> set (map eid (filter P (entities (fst ?pre))))" by (simp only: P)
    then have "i \<in> set (ids (fst ?pre))" by (auto simp: ids_def)
    with spre have "i \<in> set (ids w) \<or> i \<le> snd (snd ?pre)" by auto
    with iw(2) cnt show "i \<le> snd (snd ?pre)" by force
  qed
  show ?thesis
    using d b by (simp add: uniqueIds_def renderFrame_world[OF tick] ids_def)
qed

lemma uniqueIds_initial: "uniqueIds (initialGame board nm)"
  by (simp add: uniqueIds_def initialGame_def)

lemma uniqueIds_startGame: "uniqueIds (startGame ok now g)"
  by (simp add: uniqueIds_def startGame_def ensureAudio_def resetWorld_def ids_def Let_def)

lemma uniqueIds_stopAudio: "uniqueIds g \<Longrightarrow> uniqueIds (stopAudio g)"
  by (simp add: uniqueIds_def stopAudio_def split: option.splits)

lemma uniqueIds_togglePause: "uniqueIds g \<Longrightarrow> uniqueIds (togglePause ok now g)"
  by (auto simp: uniqueIds_def togglePause_def ensureAudio_def stopAudio_def ids_def
      split: option.splits)

lemma uniqueIds_inputs:
  "uniqueIds g \<Longrightarrow> worldRef g = Some world \<Longrightarrow>
   uniqueIds (g\<lparr>worldRef := Some (world\<lparr>inputs := x\<rparr>)\<rparr>)"
  by (simp add: uniqueIds_def ids_def)

lemma uniqueIds_keyDown: "uniqueIds g \<Longrightarrow> uniqueIds (handleKeyDown code ok now g)"
  unfolding handleKeyDown_def Let_def
  by (cases "worldRef g")
     (simp_all only: option.case uniqueIds_inputs uniqueIds_togglePause if_split, simp)

lemma uniqueIds_keyUp: "uniqueIds g \<Longrightarrow> uniqueIds (handleKeyUp code g)"
  by (simp add: uniqueIds_def handleKeyUp_def Let_def ids_def split: option.splits)

lemma uniqueIds_applyUpgrade: "uniqueIds g \<Longrightarrow> uniqueIds (applyUpgrade kind g)"
  by (cases kind) (auto simp: uniqueIds_def applyUpgrade_def Let_def ids_def split: option.splits)

lemma uniqueIds_syncShield: "uniqueIds g \<Longrightarrow> uniqueIds (syncShield g)"
  by (auto simp: uniqueIds_def syncShield_def Let_def ids_def split: option.splits)

lemma uniqueIds_handle: "uniqueIds g \<Longrightarrow> uniqueIds (handle g ev)"
proof (cases ev)
  case (SetPlayerName nm)
  assume "uniqueIds g"
  then show ?thesis by (simp add: SetPlayerName uniqueIds_def split: option.splits)
qed (simp_all add: uniqueIds_startGame uniqueIds_togglePause restartGame_def uniqueIds_stopAudio
      uniqueIds_keyDown uniqueIds_keyUp uniqueIds_renderFrame uniqueIds_applyUpgrade
      uniqueIds_syncShield)

lemma uniqueIds_run: "uniqueIds g \<Longrightarrow> uniqueIds (run g evs)"
  unfolding run_def by (induction evs arbitrary: g) (simp_all add: uniqueIds_handle)

text \<open>An identifier that the counter has passed and that no entity of the run carries is never
  carried again: new entities take fresh identifiers.\<close>

lemma absent_renderFrame:
  assumes "absent i g"
  shows "absent i (renderFrame nm env g)"
proof (cases rule: renderFrame_cases[of nm env g])
  case skip
  with assms show ?thesis by simp
next
  case (tick w)
  let ?pre = "preCollision env g w"
  from assms tick have i: "i \<le> idCounter g" "i \<notin> set (ids w)"
    by (simp_all add: absent_def)
  have cnt: "idCounter g \<le> snd (snd ?pre)"
    unfolding preCollision_def by (rule beforeCollisions_counter)
  have "set (ids (fst ?pre)) \<subseteq> set (ids w) \<union> {idCounter g + 1 .. snd (snd ?pre)}"
    unfolding preCollision_def by (rule beforeCollisions_ids_subset)
  with i have "i \<notin> set (ids (fst ?pre))" by auto
  with afterCollisions_subset[of env g w] have "i \<notin> set (ids (fst (afterCollisions env g w)))"
    by auto
  with i cnt show ?thesis
    by (simp add: absent_def renderFrame_world[OF tick] ids_def)
qed

lemma absent_startGame: "absent i g \<Longrightarrow> absent i (startGame ok now g)"
  by (simp add: absent_def startGame_def ensureAudio_def resetWorld_def ids_def Let_def)

lemma absent_stopAudio: "absent i g \<Longrightarrow> absent i (stopAudio g)"
  by (simp add: absent_def stopAudio_def split: option.splits)

lemma absent_togglePause: "absent i g \<Longrightarrow> absent i (togglePause ok now g)"
  by (auto simp: absent_def togglePause_def ensureAudio_def stopAudio_def ids_def
      split: option.splits)

lemma absent_inputs:
  "absent i g \<Longrightarrow> worldRef g = Some world \<Longrightarrow>
   absent i (g\<lparr>worldRef := Some (world\<lparr>inputs := x\<rparr>)\<rparr>)"
  by (simp add: absent_def ids_def)

lemma absent_keyDown: "absent i g \<Longrightarrow> absent i (handleKeyDown code ok now g)"
  unfolding handleKeyDown_def Let_def
  by (cases "worldRef g")
     (simp_all only: option.case absent_inputs absent_togglePause if_split, simp)

lemma absent_keyUp: "absent i g \<Longrightarrow> absent i (handleKeyUp code g)"
  by (simp add: absent_def handleKeyUp_def Let_def ids_def split: option.splits)

lemma absent_applyUpgrade: "absent i g \<Longrightarrow> absent i (applyUpgrade kind g)"
  by (cases kind) (auto simp: absent_def applyUpgrade_def Let_def ids_def split: option.splits)

lemma absent_syncShield: "absent i g \<Longrightarrow> absent i (syncShield g)"
  by (auto simp: absent_def syncShield_def Let_def ids_def split: option.splits)

lemma absent_handle: "absent i g \<Longrightarrow> absent i (handle g ev)"
proof (cases ev)
  case (SetPlayerName nm)
  assume "absent i g"
  then show ?thesis by (simp add: SetPlayerName absent_def split: option.splits)
qed (simp_all add: absent_startGame absent_togglePause restartGame_def absent_stopAudio
      absent_keyDown absent_keyUp absent_renderFrame absent_applyUpgrade absent_syncShield)

lemma absent_run: "absent i g \<Longrightarrow> absent i (run g evs)"
  unfolding run_def by (induction evs arbitrary: g) (simp_all add: absent_handle)

text \<open>Once a run is over, no event short of starting a new run changes its status or its
  score.\<close>

lemma frozen_togglePause: "frozenAt sc g \<Longrightarrow> frozenAt sc (togglePause ok now g)"
  by (auto simp: frozenAt_def togglePause_def split: option.splits)

lemma frozen_inputs:
  "frozenAt sc g \<Longrightarrow> worldRef g = Some world \<Longrightarrow>
   frozenAt sc (g\<lparr>worldRef := Some (world\<lparr>inputs := x\<rparr>)\<rparr>)"
  by (simp add: frozenAt_def)

lemma frozen_keyDown: "frozenAt sc g \<Longrightarrow> frozenAt sc (handleKeyDown code ok now g)"
  unfolding handleKeyDown_def Let_def
  by (cases "worldRef g")
     (simp_all only: option.case frozen_inputs frozen_togglePause if_split, simp)

lemma frozen_keyUp: "frozenAt sc g \<Longrightarrow> frozenAt sc (handleKeyUp code g)"
  by (simp add: frozenAt_def handleKeyUp_def Let_def split: option.splits)

lemma frozen_renderFrame: "frozenAt sc g \<Longrightarrow> renderFrame nm env g = g"
  by (auto simp: frozenAt_def renderFrame_def split: option.splits)

lemma frozen_applyUpgrade: "frozenAt sc g \<Longrightarrow> frozenAt sc (applyUpgrade kind g)"
  by (cases kind) (auto simp: frozenAt_def applyUpgrade_def Let_def split: option.splits)

lemma frozen_syncShield: "frozenAt sc g \<Longrightarrow> frozenAt sc (syncShield g)"
  by (auto simp: frozenAt_def syncShield_def Let_def split: option.splits)

lemma frozen_handle: "frozenAt sc g \<Longrightarrow> sameRun ev \<Longrightarrow> frozenAt sc (handle g ev)"
proof (cases ev)
  case (SetPlayerName nm)
  assume "frozenAt sc g"
  then show ?thesis by (simp add: SetPlayerName frozenAt_def split: option.splits)
qed (simp_all add: frozen_togglePause frozen_keyDown frozen_keyUp frozen_renderFrame
      frozen_applyUpgrade frozen_syncShield)

lemma frozen_run: "frozenAt sc g \<Longrightarrow> list_all sameRun evs \<Longrightarrow> frozenAt sc (run g evs)"
  unfolding run_def by (induction evs arbitrary: g) (simp_all add: frozen_handle)

subsection \<open>A concrete tick\<close>

text \<open>The run of \<open>demoGame\<close>: the player stands on the ground at \<open>x = 160\<close>; a firewall
  and a data packet are about to reach it; the frame arrives 16 ms after the previous one
  (\<open>deltaScale = 0.96\<close>), no spawn timer fires. After the entities have moved, both
  overlap the player. The vertical position of the packet carries two sine terms, which
  are bounded by 1.\<close>

lemma demo_game:
  "worldRef (demoGame c i) = Some (demoWorld c i)" "frameRef (demoGame c i) = 120"
  "audioRef (demoGame c i) = True" "status (demoWorld c i) = Running"
  "score (demoWorld c i) = 100" "upgradePoints (demoWorld c i) = 0"
  "lastFrame (demoWorld c i) = 1000" "shieldCharges (player (demoWorld c i)) = c"
  "invulnerableUntil (player (demoWorld c i)) = i" "idCounter (demoGame c i) = 2"
  by (simp_all add: demoGame_def demoWorld_def initialPlayer_def)

lemma demo_box:
  "px (player (demoWorld c i)) = 160" "py (player (demoWorld c i)) = 348"
  "pwidth (player (demoWorld c i)) = 48" "pheight (player (demoWorld c i)) = 72"
  by (simp_all add: demoWorld_def initialPlayer_def CANVAS_HEIGHT_def GROUND_HEIGHT_def)

lemma demo_accrual: "accrual demoEnv (demoWorld c i) = 28 / 5"
  by (simp add: accrual_def demoEnv_def demo_game getLevel_def LEVELS_def)

lemma demo_preCollision:
  "preCollision demoEnv (demoGame c i) (demoWorld c i) =
     ((demoWorld c i)\<lparr>lastFrame := 1016, entities := [movedFirewall, movedPacket]\<rparr>, [], 2)"
  apply (simp add: preCollision_def demoGame_def)
  apply (simp add: beforeCollisions_def demoEnv_def)
  apply (simp add: demoWorld_def getLevel_def LEVELS_def initialPlayer_def CANVAS_WIDTH_def
      CANVAS_HEIGHT_def GROUND_HEIGHT_def)
  apply (simp add: moveHorizontal_def clamp_def CANVAS_WIDTH_def)
  apply (simp add: jumpStep_def gravityStep_def GRAVITY_def CANVAS_WIDTH_def CANVAS_HEIGHT_def
      GROUND_HEIGHT_def)
  apply (simp add: spawnStep_def)
  apply (simp add: advanceEntities_def advanceEntity_def demoFirewall_def demoPacket_def
      movedFirewall_def movedPacket_def orZero_def)
  done

lemma demo_snapshot: "snapshot demoEnv (demoGame c i) (demoWorld c i) = [movedFirewall, movedPacket]"
  by (simp add: snapshot_def demo_preCollision)

lemma demo_tickPlayer: "tickPlayer demoEnv (demoGame c i) (demoWorld c i) = player (demoWorld c i)"
  by (simp add: tickPlayer_def demo_preCollision)

lemma firewall_collides:
  "px p = 160 \<Longrightarrow> py p = 348 \<Longrightarrow> pwidth p = 48 \<Longrightarrow> pheight p = 72 \<Longrightarrow>
   collides p 121 movedFirewall"
  by (simp add: collides_def movedFirewall_def demoFirewall_def)

lemma packet_collides:
  assumes "px p = 160" "py p = 348" "pwidth p = 48" "pheight p = 72"
  shows "collides p 121 movedPacket"
  using assms
  apply (simp add: collides_def movedPacket_def demoPacket_def orZero_def Let_def)
  apply (insert sin_ge_minus_one[of "121 / 16 :: real"] sin_le_one[of "121 / 16 :: real"]
      sin_ge_minus_one[of "121 / 6 :: real"] sin_le_one[of "121 / 6 :: real"])
  apply linarith
  done

lemma demo_hits:
  "hazardHit (player (demoWorld c i)) 121 movedFirewall"
  "\<not> pickupHit (player (demoWorld c i)) 121 movedFirewall"
  "pickupHit (player (demoWorld c i)) 121 movedPacket"
  by (simp_all add: hazardHit_def pickupHit_def firewall_collides packet_collides demo_box)
     (simp_all add: movedFirewall_def demoFirewall_def movedPacket_def demoPacket_def)

lemma demo_filter:
  "filter (pickupHit (tickPlayer demoEnv (demoGame c i) (demoWorld c i)) (frameRef (demoGame c i) + 1))
     (snapshot demoEnv (demoGame c i) (demoWorld c i)) = [movedPacket]"
  by (simp add: demo_tickPlayer demo_snapshot demo_game demo_hits)

lemma demo_uniqueIds: "uniqueIds (demoGame c i)"
  by (simp add: uniqueIds_def demoGame_def demoWorld_def ids_def demoFirewall_def demoPacket_def)

lemma demo_lethal_step:
  "collisionStep 1016 121 True
     (fst (preCollision demoEnv (demoGame 0 0) (demoWorld 0 0)), []) movedFirewall =
   ((demoWorld 0 0)\<lparr>lastFrame := 1016, entities := [movedFirewall, movedPacket], status := Over\<rparr>, [])"
  by (simp add: demo_preCollision collisionStep_def firewall_collides demo_box)
     (simp add: movedFirewall_def demoFirewall_def demoWorld_def initialPlayer_def)

lemma demo_lethal_fold:
  "foldl (collisionStep 1016 121 True)
     ((demoWorld 0 0)\<lparr>lastFrame := 1016, entities := [movedFirewall, movedPacket]\<rparr>, [])
     [movedFirewall, movedPacket] =
   ((demoWorld 0 0)\<lparr>lastFrame := 1016, entities := [movedFirewall], status := Over,
       score := 220, upgradePoints := 1\<rparr>,
    [\<lparr>frequency = 880, duration = 0.16, wave = Square\<rparr>])"
  by (simp add: collisionStep_def firewall_collides packet_collides demo_box demo_game playTone_def)
     (simp add: movedFirewall_def demoFirewall_def movedPacket_def demoPacket_def demoWorld_def)

lemma demo_lethal_after:
  "afterCollisions demoEnv (demoGame 0 0) (demoWorld 0 0) =
   ((demoWorld 0 0)\<lparr>lastFrame := 1016, entities := [movedFirewall], status := Over,
       score := 220, upgradePoints := 1\<rparr>,
    [\<lparr>frequency = 880, duration = 0.16, wave = Square\<rparr>])"
  by (simp add: afterCollisions_def resolveCollisions_def demo_preCollision demo_game
      demo_lethal_fold demoEnv_def[THEN arg_cong[of _ _ perfNow]] del: foldl.simps)

lemma demo_lethal_tick:
  "worldRef (renderFrame nm demoEnv (demoGame 0 0)) =
     Some ((demoWorld 0 0)\<lparr>lastFrame := 1016, entities := [movedFirewall], status := Over,
            score := 1128 / 5, upgradePoints := 1\<rparr>)"
  using tick_world[OF demo_game(1) demo_game(4), where nm = nm and env = demoEnv and c1 = 0 and i1 = 0]
  by (simp add: demo_preCollision demo_snapshot demo_game demo_accrual demo_lethal_fold
      demoEnv_def[THEN arg_cong[of _ _ perfNow]] del: foldl.simps)

lemma demo_shielded_fold:
  "foldl (collisionStep 1016 121 True)
     ((demoWorld 1 0)\<lparr>lastFrame := 1016, entities := [movedFirewall, movedPacket]\<rparr>, [])
     [movedFirewall, movedPacket] =
   ((demoWorld 0 2216)\<lparr>lastFrame := 1016, entities := [], score := 220, upgradePoints := 1\<rparr>,
    [\<lparr>frequency = 160, duration = 0.3, wave = Sawtooth\<rparr>,
     \<lparr>frequency = 880, duration = 0.16, wave = Square\<rparr>])"
  by (simp add: collisionStep_def firewall_collides packet_collides demo_box demo_game playTone_def)
     (simp add: movedFirewall_def demoFirewall_def movedPacket_def demoPacket_def demoWorld_def
        initialPlayer_def)

lemma demo_shielded_tick:
  "worldRef (renderFrame nm demoEnv (demoGame 1 0)) =
     Some ((demoWorld 0 2216)\<lparr>lastFrame := 1016, entities := [], score := 1128 / 5,
             upgradePoints := 1\<rparr>)"
  using tick_world[OF demo_game(1) demo_game(4), where nm = nm and env = demoEnv and c1 = 1 and i1 = 0]
  by (simp add: demo_preCollision demo_snapshot demo_game demo_accrual demo_shielded_fold
      demoEnv_def[THEN arg_cong[of _ _ perfNow]] del: foldl.simps)

lemma demo_shielded_after:
  "afterCollisions demoEnv (demoGame 1 0) (demoWorld 1 0) =
   ((demoWorld 0 2216)\<lparr>lastFrame := 1016, entities := [], score := 220, upgradePoints := 1\<rparr>,
    [\<lparr>frequency = 160, duration = 0.3, wave = Sawtooth\<rparr>,
     \<lparr>frequency = 880, duration = 0.16, wave = Square\<rparr>])"
  by (simp add: afterCollisions_def resolveCollisions_def demo_preCollision demo_game
      demo_shielded_fold demoEnv_def[THEN arg_cong[of _ _ perfNow]] del: foldl.simps)

lemma demo_shielded_game:
  "renderFrame nm demoEnv (demoGame 1 0) = afterPickupGame"
proof -
  have r: "status (fst (afterCollisions demoEnv (demoGame 1 0) (demoWorld 1 0))) = Running"
    by (simp add: demo_shielded_after demo_game)
  show ?thesis
    by (simp add: renderFrame_running[OF demo_game(1) demo_game(4) r] demo_shielded_after
        demo_accrual demo_preCollision afterPickupGame_def afterPickup_def)
       (simp add: demoGame_def)
qed

lemma afterPickup_preCollision:
  "preCollision laterEnv afterPickupGame afterPickup =
     (afterPickup\<lparr>lastFrame := 1033\<rparr>,
      [\<lparr>frequency = 160, duration = 0.3, wave = Sawtooth\<rparr>,
       \<lparr>frequency = 880, duration = 0.16, wave = Square\<rparr>], 2)"
  apply (simp add: preCollision_def afterPickupGame_def demoGame_def)
  apply (simp add: beforeCollisions_def laterEnv_def)
  apply (simp add: afterPickup_def demoWorld_def getLevel_def LEVELS_def initialPlayer_def
      CANVAS_WIDTH_def CANVAS_HEIGHT_def GROUND_HEIGHT_def)
  apply (simp add: moveHorizontal_def clamp_def CANVAS_WIDTH_def)
  apply (simp add: jumpStep_def gravityStep_def GRAVITY_def CANVAS_WIDTH_def CANVAS_HEIGHT_def
      GROUND_HEIGHT_def)
  apply (simp add: spawnStep_def)
  apply (simp add: advanceEntities_def)
  done

lemma afterPickup_tick:
  "worldRef (renderFrame nm laterEnv afterPickupGame) =
     Some (afterPickup\<lparr>lastFrame := 1033, score := 4631 / 20\<rparr>)"
proof -
  have w: "worldRef afterPickupGame = Some afterPickup" "status afterPickup = Running"
    by (simp_all add: afterPickupGame_def afterPickup_def demoWorld_def)
  have a: "accrual laterEnv afterPickup = 119 / 20"
    by (simp add: accrual_def laterEnv_def afterPickup_def getLevel_def LEVELS_def)
  show ?thesis
    using tick_world[OF w, of nm laterEnv]
    by (simp add: afterPickup_preCollision snapshot_def a) (simp add: afterPickup_def)
qed

subsection \<open>Lethal hazard contact\<close>

text \<open>Claim C1, as the code has it. Let the run be \<open>running\<close>, the player without shield
  charges and outside the invulnerability window, and let a hazard (firewall or virus)
  overlap the player when the tick resolves collisions. Then the tick leaves the run in
  status \<open>over\<close>. The tick completes its own accounting: the score it leaves is the score
  before the tick, plus 120 for every data packet that overlaps the player in this tick,
  plus the elapsed-time term \<open>delta * 0.35 * speedScale\<close> of this tick. From then on,
  whatever happens to this run (frames, keys, pause, purchases, the shield effect), the
  status stays \<open>over\<close> and the score keeps that value: no later tick accrues time or awards
  a pickup.\<close>

theorem lethal_hit_ends_run:
  assumes "worldRef g = Some w" and "status w = Running"
    and "shieldCharges (player w) = 0"
    and "\<not> perfNow env < invulnerableUntil (player w)"
    and "e \<in> set (snapshot env g w)"
    and "hazardHit (tickPlayer env g w) (frameRef g + 1) e"
  shows "\<exists>w'. worldRef (renderFrame nm env g) = Some w' \<and> status w' = Over \<and>
           score w' = score w
             + 120 * real (length (filter (pickupHit (tickPlayer env g w) (frameRef g + 1))
                                     (snapshot env g w)))
             + (frameTime env - lastFrame w) * 0.35 * speedScale (getLevel (score w)) \<and>
           (\<forall>evs. list_all sameRun evs \<longrightarrow>
              (\<exists>w''. worldRef (run (renderFrame nm env g) evs) = Some w'' \<and>
                     status w'' = Over \<and> score w'' = score w'))"
proof -
  let ?pre = "preCollision env g w"
  let ?st = "(fst ?pre, fst (snd ?pre))"
  let ?f = "foldl (collisionStep (perfNow env) (frameRef g + 1) (audioRef g)) ?st (snapshot env g w)"
  let ?w' = "(fst ?f)\<lparr>score := score (fst ?f) + accrual env w\<rparr>"
  have d: "defenceless (perfNow env) (player (fst ?st))"
    using assms(3,4) by (simp add: defenceless_def preCollision_fields)
  have over: "status (fst ?f) = Over"
    using d assms(5) by (rule resolve_lethal) (use assms(6) in \<open>simp add: tickPlayer_def\<close>)
  have sc: "score (fst ?f) = score w
      + 120 * real (length (filter (pickupHit (tickPlayer env g w) (frameRef g + 1))
                              (snapshot env g w)))"
    by (simp add: resolve_score tickPlayer_def preCollision_fields)
  have w': "worldRef (renderFrame nm env g) = Some ?w'"
    by (rule tick_world[OF assms(1,2)])
  then have fr: "frozenAt (score ?w') (renderFrame nm env g)"
    using over by (simp add: frozenAt_def)
  have "\<exists>w''. worldRef (run (renderFrame nm env g) evs) = Some w'' \<and>
          status w'' = Over \<and> score w'' = score ?w'" if "list_all sameRun evs" for evs
    using frozen_run[OF fr that] by (auto simp: frozenAt_def split: option.splits)
  with w' over sc show ?thesis by (simp add: accrual_def)
qed

theorem lethal_hit_ends_run_witness:
  "worldRef (demoGame 0 0) = Some (demoWorld 0 0) \<and> status (demoWorld 0 0) = Running \<and>
   shieldCharges (player (demoWorld 0 0)) = 0 \<and>
   \<not> perfNow demoEnv < invulnerableUntil (player (demoWorld 0 0)) \<and>
   movedFirewall \<in> set (snapshot demoEnv (demoGame 0 0) (demoWorld 0 0)) \<and>
   hazardHit (tickPlayer demoEnv (demoGame 0 0) (demoWorld 0 0)) (frameRef (demoGame 0 0) + 1) movedFirewall \<and>
   list_all sameRun laterEvents \<and>
   (\<exists>w'. worldRef (renderFrame ''Cipher'' demoEnv (demoGame 0 0)) = Some w' \<and> status w' = Over \<and>
      score w' = 1128 / 5 \<and>
      (\<exists>w''. worldRef (run (renderFrame ''Cipher'' demoEnv (demoGame 0 0)) laterEvents) = Some w'' \<and>
         status w'' = Over \<and> score w'' = 1128 / 5))"
proof -
  have h: "shieldCharges (player (demoWorld 0 0)) = 0"
    "\<not> perfNow demoEnv < invulnerableUntil (player (demoWorld 0 0))"
    "movedFirewall \<in> set (snapshot demoEnv (demoGame 0 0) (demoWorld 0 0))"
    "hazardHit (tickPlayer demoEnv (demoGame 0 0) (demoWorld 0 0)) (frameRef (demoGame 0 0) + 1) movedFirewall"
    by (simp_all add: demo_tickPlayer demo_snapshot demo_game demo_hits
        demoEnv_def[THEN arg_cong[of _ _ perfNow]])
  have l: "list_all sameRun laterEvents"
    by (simp add: laterEvents_def)
  from lethal_hit_ends_run[OF demo_game(1)[of 0 0] demo_game(4)[of 0 0] h, where nm = "''Cipher''"]
  obtain w' where w': "worldRef (renderFrame ''Cipher'' demoEnv (demoGame 0 0)) = Some w'"
      "status w' = Over"
      "\<forall>evs. list_all sameRun evs \<longrightarrow>
         (\<exists>w''. worldRef (run (renderFrame ''Cipher'' demoEnv (demoGame 0 0)) evs) = Some w'' \<and>
                status w'' = Over \<and> score w'' = score w')"
    by blast
  from w'(1) have "w' = (demoWorld 0 0)\<lparr>lastFrame := 1016, entities := [movedFirewall],
      status := Over, score := 1128 / 5, upgradePoints := 1\<rparr>"
    by (simp add: demo_lethal_tick)
  then have sc: "score w' = 1128 / 5"
    by simp
  from w'(3) l obtain w'' where
    "worldRef (run (renderFrame ''Cipher'' demoEnv (demoGame 0 0)) laterEvents) = Some w''"
    "status w'' = Over" "score w'' = score w'"
    by blast
  with w' sc h l show ?thesis
    by (simp add: demo_game)
qed

text \<open>Why claim C1 does not hold as it is worded. Inside the lethal tick the callback of
  \<open>forEach\<close> goes on after the status has been set, and line 553 follows the loop without
  looking at the status. In the concrete tick the firewall comes first and ends the run
  at score 100; the packet behind it still adds 120 and one upgrade point, line 553 adds the
  5.6 of the elapsed 16 ms, and the floored total 225 is what \<open>saveScore\<close> records.\<close>

theorem score_grows_after_lethal_transition:
  "worldRef (demoGame 0 0) = Some (demoWorld 0 0) \<and>
   status (demoWorld 0 0) = Running \<and>
   shieldCharges (player (demoWorld 0 0)) = 0 \<and>
   \<not> perfNow demoEnv < invulnerableUntil (player (demoWorld 0 0)) \<and>
   snapshot demoEnv (demoGame 0 0) (demoWorld 0 0) = [movedFirewall, movedPacket] \<and>
   hazardHit (tickPlayer demoEnv (demoGame 0 0) (demoWorld 0 0)) 121 movedFirewall \<and>
   status (fst (collisionStep 1016 121 True
      (fst (preCollision demoEnv (demoGame 0 0) (demoWorld 0 0)), []) movedFirewall)) = Over \<and>
   score (fst (collisionStep 1016 121 True
      (fst (preCollision demoEnv (demoGame 0 0) (demoWorld 0 0)), []) movedFirewall)) = 100 \<and>
   map_option status (worldRef (renderFrame ''Cipher'' demoEnv (demoGame 0 0))) = Some Over \<and>
   map_option score (worldRef (renderFrame ''Cipher'' demoEnv (demoGame 0 0))) = Some (100 + 120 + 28 / 5) \<and>
   map_option upgradePoints (worldRef (renderFrame ''Cipher'' demoEnv (demoGame 0 0))) = Some 1 \<and>
   map entryScore (leaderboard (renderFrame ''Cipher'' demoEnv (demoGame 0 0))) = [225]"
proof -
  have lb: "leaderboard (renderFrame ''Cipher'' demoEnv (demoGame 0 0)) =
      saveScore ''Cipher'' (of_int \<lfloor>1128 / 5 :: real\<rfloor>) (dateNow demoEnv) []"
    by (simp add: renderFrame_leaderboard[OF demo_game(1) demo_game(4)] demo_lethal_after
        demo_accrual demoGame_def[THEN arg_cong[of _ _ leaderboard]])
  show ?thesis
    by (simp add: demo_game demo_tickPlayer demo_snapshot demo_hits demo_lethal_step demo_lethal_tick
        demoEnv_def[THEN arg_cong[of _ _ perfNow]] lb saveScore_def newEntry_def MAX_LEADERS_def)
qed

subsection \<open>Hazards during invulnerability\<close>

text \<open>Claim C2. If a hazard overlaps the player while \<open>timeNow\<close> is before
  \<open>invulnerableUntil\<close>, the callback returns the state as it found it: no charge is used,
  the expiry is not moved, the entity stays, the status stays, no tone is played. Over the
  whole loop of such a tick the player and the status are unchanged as well.\<close>

theorem hazard_ignored_while_invulnerable:
  assumes "etype entity \<noteq> Data"
    and "collides (player w) frame entity"
    and "timeNow < invulnerableUntil (player w)"
  shows "collisionStep timeNow frame audio (w, tlog) entity = (w, tlog) \<and>
         player (fst (resolveCollisions timeNow frame audio (w, tlog))) = player w \<and>
         status (fst (resolveCollisions timeNow frame audio (w, tlog))) = status w"
  using assms resolve_invulnerable[of timeNow "(w, tlog)" frame audio "entities w"]
  by (simp add: collisionStep_def resolveCollisions_def)

theorem hazard_ignored_while_invulnerable_witness:
  "etype movedFirewall \<noteq> Data \<and>
   collides (player (fst (preCollision demoEnv (demoGame 1 5000) (demoWorld 1 5000)))) 121 movedFirewall \<and>
   1016 < invulnerableUntil (player (fst (preCollision demoEnv (demoGame 1 5000) (demoWorld 1 5000)))) \<and>
   collisionStep 1016 121 True
     (fst (preCollision demoEnv (demoGame 1 5000) (demoWorld 1 5000)), []) movedFirewall =
     (fst (preCollision demoEnv (demoGame 1 5000) (demoWorld 1 5000)), []) \<and>
   shieldCharges (player (fst (resolveCollisions 1016 121 True
     (fst (preCollision demoEnv (demoGame 1 5000) (demoWorld 1 5000)), [])))) = 1 \<and>
   status (fst (resolveCollisions 1016 121 True
     (fst (preCollision demoEnv (demoGame 1 5000) (demoWorld 1 5000)), []))) = Running"
proof -
  let ?w = "fst (preCollision demoEnv (demoGame 1 5000) (demoWorld 1 5000))"
  have h: "etype movedFirewall \<noteq> Data" "collides (player ?w) 121 movedFirewall"
      "1016 < invulnerableUntil (player ?w)"
    by (simp_all add: demo_preCollision firewall_collides demo_box demo_game)
       (simp add: movedFirewall_def demoFirewall_def)
  from hazard_ignored_while_invulnerable[OF h, of True "[]"] h show ?thesis
    by (simp add: demo_preCollision demo_game)
qed

subsection \<open>Pickups\<close>

text \<open>Claim C3. In a state whose entity identifiers are unique (as in every state the event loop
  reaches, \<open>uniqueIds_run\<close>), let a data packet overlap the player in a tick. Then its
  identifier is carried by no entity after the tick, nor after any further events; the tick
  adds 120 to the score and 1 to the currency once for each overlapping packet, counted by
  identifier, on top of the elapsed-time accrual.\<close>

theorem pickup_collected_once:
  assumes "uniqueIds g" and "worldRef g = Some w" and "status w = Running"
    and "e \<in> set (snapshot env g w)"
    and "pickupHit (tickPlayer env g w) (frameRef g + 1) e"
  shows "(\<forall>evs w'. worldRef (run (renderFrame nm env g) evs) = Some w' \<longrightarrow> eid e \<notin> set (ids w')) \<and>
         (\<exists>w'. worldRef (renderFrame nm env g) = Some w' \<and>
            score w' = score w
              + 120 * real (card (eid ` {x \<in> set (snapshot env g w).
                                        pickupHit (tickPlayer env g w) (frameRef g + 1) x}))
              + (frameTime env - lastFrame w) * 0.35 * speedScale (getLevel (score w)) \<and>
            upgradePoints w' = upgradePoints w
              + int (card (eid ` {x \<in> set (snapshot env g w).
                                    pickupHit (tickPlayer env g w) (frameRef g + 1) x})))"
proof -
  let ?pre = "preCollision env g w"
  let ?st = "(fst ?pre, fst (snd ?pre))"
  let ?f = "foldl (collisionStep (perfNow env) (frameRef g + 1) (audioRef g)) ?st (snapshot env g w)"
  let ?hit = "pickupHit (tickPlayer env g w) (frameRef g + 1)"
  from assms have iw: "distinct (ids w)" "\<forall>i \<in> set (ids w). i \<le> idCounter g"
    by (simp_all add: uniqueIds_def)
  have dpre: "distinct (map eid (snapshot env g w))"
    using beforeCollisions_ids(1)[of w "idCounter g" env "upgradesRef g" "audioRef g" "frameRef g + 1" "tones g"] iw
    by (simp add: snapshot_def preCollision_def ids_def)
  have spre: "set (ids (fst ?pre)) \<subseteq> set (ids w) \<union> {idCounter g + 1 .. snd (snd ?pre)}"
    unfolding preCollision_def by (rule beforeCollisions_ids_subset)
  have cnt: "idCounter g \<le> snd (snd ?pre)"
    unfolding preCollision_def by (rule beforeCollisions_counter)
  have "eid e \<in> set (ids (fst ?pre))"
    using assms(4) by (auto simp: snapshot_def ids_def)
  with spre iw(2) cnt have bound: "eid e \<le> snd (snd ?pre)" by force
  have gone: "eid e \<notin> set (ids (fst ?f))"
    using assms(4,5) by (intro resolve_removes) (simp_all add: tickPlayer_def)
  have "absent (eid e) (renderFrame nm env g)"
    using gone bound
    by (simp add: absent_def tick_world[OF assms(2,3)] renderFrame_world(2)[OF assms(2,3)] ids_def)
  then have later: "absent (eid e) (run (renderFrame nm env g) evs)" for evs
    by (rule absent_run)
  have part1: "\<forall>evs w'. worldRef (run (renderFrame nm env g) evs) = Some w' \<longrightarrow> eid e \<notin> set (ids w')"
  proof (intro allI impI)
    fix evs w' assume "worldRef (run (renderFrame nm env g) evs) = Some w'"
    with later[of evs] show "eid e \<notin> set (ids w')" by (simp add: absent_def)
  qed
  have len: "length (filter ?hit (snapshot env g w)) =
      card (eid ` {x \<in> set (snapshot env g w). ?hit x})"
    using dpre by (rule length_filter_card)
  have sc: "score (fst ?f) = score w + 120 * real (card (eid ` {x \<in> set (snapshot env g w). ?hit x}))"
    using len by (simp add: resolve_score tickPlayer_def preCollision_fields)
  have up: "upgradePoints (fst ?f) = upgradePoints w + int (card (eid ` {x \<in> set (snapshot env g w). ?hit x}))"
    using len by (simp add: resolve_points tickPlayer_def preCollision_fields)
  show ?thesis
    using part1 sc up by (simp add: tick_world[OF assms(2,3)] accrual_def)
qed

theorem pickup_collected_once_witness:
  "uniqueIds (demoGame 1 0) \<and> worldRef (demoGame 1 0) = Some (demoWorld 1 0) \<and>
   status (demoWorld 1 0) = Running \<and>
   movedPacket \<in> set (snapshot demoEnv (demoGame 1 0) (demoWorld 1 0)) \<and>
   pickupHit (tickPlayer demoEnv (demoGame 1 0) (demoWorld 1 0)) (frameRef (demoGame 1 0) + 1) movedPacket \<and>
   (\<exists>w'. worldRef (renderFrame ''Cipher'' demoEnv (demoGame 1 0)) = Some w' \<and>
      eid movedPacket \<notin> set (ids w') \<and> score w' = 100 + 120 * 1 + 28 / 5 \<and> upgradePoints w' = 1) \<and>
   (\<exists>w''. worldRef (run (renderFrame ''Cipher'' demoEnv (demoGame 1 0)) [Frame ''Cipher'' laterEnv])
             = Some w'' \<and>
      eid movedPacket \<notin> set (ids w'') \<and> score w'' = 100 + 120 * 1 + 28 / 5 + 119 / 20 \<and>
      upgradePoints w'' = 1)"
proof -
  have h: "movedPacket \<in> set (snapshot demoEnv (demoGame 1 0) (demoWorld 1 0))"
    "pickupHit (tickPlayer demoEnv (demoGame 1 0) (demoWorld 1 0)) (frameRef (demoGame 1 0) + 1) movedPacket"
    by (simp_all add: demo_tickPlayer demo_snapshot demo_game demo_hits)
  have w': "worldRef (run (renderFrame ''Cipher'' demoEnv (demoGame 1 0)) []) = Some afterPickup"
    by (simp add: run_def demo_shielded_tick afterPickup_def)
  have w'': "worldRef (run (renderFrame ''Cipher'' demoEnv (demoGame 1 0)) [Frame ''Cipher'' laterEnv])
      = Some (afterPickup\<lparr>lastFrame := 1033, score := 4631 / 20\<rparr>)"
    by (simp add: run_def demo_shielded_game afterPickup_tick)
  note gone = pickup_collected_once[OF demo_uniqueIds[of 1 0] demo_game(1)[of 1 0]
      demo_game(4)[of 1 0] h, where nm = "''Cipher''", THEN conjunct1, rule_format]
  have "eid movedPacket \<notin> set (ids afterPickup)"
    using gone[OF w'] .
  moreover have "eid movedPacket \<notin> set (ids (afterPickup\<lparr>lastFrame := 1033, score := 4631 / 20\<rparr>))"
    using gone[OF w''] .
  ultimately show ?thesis
    using h w' w'' by (simp add: demo_uniqueIds demo_game run_def afterPickup_def)
qed

text \<open>Claim C4. In a tick in which exactly one data packet overlaps the player, the packet is
  removed from the entity collection, the score grows by exactly 120 plus the tick's
  elapsed-time accrual \<open>delta * 0.35 * speedScale\<close>, and the currency grows by exactly 1.\<close>

theorem single_pickup_tick:
  assumes "worldRef g = Some w" and "status w = Running"
    and "filter (pickupHit (tickPlayer env g w) (frameRef g + 1)) (snapshot env g w) = [e]"
  shows "\<exists>w'. worldRef (renderFrame nm env g) = Some w' \<and>
           e \<notin> set (entities w') \<and> eid e \<notin> set (ids w') \<and>
           score w' = score w + 120 + (frameTime env - lastFrame w) * 0.35 * speedScale (getLevel (score w)) \<and>
           upgradePoints w' = upgradePoints w + 1"
proof -
  let ?st = "(fst (preCollision env g w), fst (snd (preCollision env g w)))"
  let ?f = "foldl (collisionStep (perfNow env) (frameRef g + 1) (audioRef g)) ?st (snapshot env g w)"
  have "e \<in> set (filter (pickupHit (tickPlayer env g w) (frameRef g + 1)) (snapshot env g w))"
    using assms(3) by simp
  then have e: "e \<in> set (snapshot env g w)" "pickupHit (player (fst ?st)) (frameRef g + 1) e"
    by (simp_all add: tickPlayer_def)
  have gone: "eid e \<notin> set (ids (fst ?f))"
    using e by (rule resolve_removes)
  then have gone': "e \<notin> set (entities (fst ?f))" by (auto simp: ids_def)
  have sc: "score (fst ?f) = score w + 120"
    using assms(3) by (simp add: resolve_score tickPlayer_def preCollision_fields)
  have up: "upgradePoints (fst ?f) = upgradePoints w + 1"
    using assms(3) by (simp add: resolve_points tickPlayer_def preCollision_fields)
  show ?thesis
    using gone gone' sc up
    by (simp add: tick_world[OF assms(1,2)] ids_def accrual_def)
qed

theorem single_pickup_tick_witness:
  "worldRef (demoGame 1 0) = Some (demoWorld 1 0) \<and> status (demoWorld 1 0) = Running \<and>
   filter (pickupHit (tickPlayer demoEnv (demoGame 1 0) (demoWorld 1 0)) (frameRef (demoGame 1 0) + 1))
     (snapshot demoEnv (demoGame 1 0) (demoWorld 1 0)) = [movedPacket] \<and>
   (\<exists>w'. worldRef (renderFrame ''Cipher'' demoEnv (demoGame 1 0)) = Some w' \<and>
      movedPacket \<notin> set (entities w') \<and> eid movedPacket \<notin> set (ids w') \<and>
      score w' = 100 + 120 + 28 / 5 \<and> upgradePoints w' = 0 + 1)"
  using single_pickup_tick[OF demo_game(1)[of 1 0] demo_game(4)[of 1 0] demo_filter[of 1 0],
      where nm = "''Cipher''"]
  by (simp add: demo_game demo_tickPlayer demo_snapshot demo_hits
      demoEnv_def[THEN arg_cong[of _ _ frameTime]] getLevel_def LEVELS_def)

subsection \<open>Jumping\<close>

text \<open>Claim C5. While the player is not on the ground, a queued jump changes nothing: the jump
  step returns the state as it is, the vertical velocity after the tick's gravity step is
  the old one plus gravity (or 0 on landing), and the player after the whole physics part of
  the tick is the same whether or not a jump is queued. The jump step changes the state
  only when a jump is queued and the player is grounded; then the vertical velocity becomes
  \<open>-(12 + 1.8 * jump level)\<close> and the ground flag is cleared.\<close>

theorem jump_only_when_grounded:
  "(\<not> onGround (player w) \<longrightarrow>
      jumpStep u audio (w, tlog) = (w, tlog) \<and>
      vy (player (gravityStep ds (fst (jumpStep u audio (w, tlog))))) =
        (if py (player w) + (vy (player w) + GRAVITY * ds) * ds
              \<ge> CANVAS_HEIGHT - GROUND_HEIGHT - pheight (player w)
         then 0 else vy (player w) + GRAVITY * ds) \<and>
      player (fst (beforeCollisions env u audio frame
                (w\<lparr>inputs := (inputs w)\<lparr>jumpQueued := True\<rparr>\<rparr>, tlog, c))) =
      player (fst (beforeCollisions env u audio frame
                (w\<lparr>inputs := (inputs w)\<lparr>jumpQueued := False\<rparr>\<rparr>, tlog, c)))) \<and>
   (jumpStep u audio (w, tlog) \<noteq> (w, tlog) \<longrightarrow> jumpQueued (inputs w) \<and> onGround (player w)) \<and>
   (jumpQueued (inputs w) \<and> onGround (player w) \<longrightarrow>
      vy (player (fst (jumpStep u audio (w, tlog)))) = - (12 + of_int (jump u) * 1.8) \<and>
      \<not> onGround (player (fst (jumpStep u audio (w, tlog)))))"
proof -
  have tick: "player (fst (beforeCollisions env u audio frame
                (w\<lparr>inputs := (inputs w)\<lparr>jumpQueued := True\<rparr>\<rparr>, tlog, c))) =
      player (fst (beforeCollisions env u audio frame
                (w\<lparr>inputs := (inputs w)\<lparr>jumpQueued := False\<rparr>\<rparr>, tlog, c)))"
    if air: "\<not> onGround (player w)"
  proof -
    have "player (fst (beforeCollisions env u audio frame
                (w\<lparr>inputs := (inputs w)\<lparr>jumpQueued := b\<rparr>\<rparr>, tlog, c))) =
          player (gravityStep ((frameTime env - lastFrame w) / (1000 / 60))
             (moveHorizontal u ((frameTime env - lastFrame w) / (1000 / 60)) w))" for b
      using air
      by (simp add: beforeCollisions_unfold Let_def advanceEntities_fields spawnStep_fields
          jumpStep_def moveHorizontal_def gravityStep_def)
    then show ?thesis by simp
  qed
  show ?thesis
    using tick by (simp add: jumpStep_def gravityStep_def Let_def)
qed

theorem jump_only_when_grounded_witness:
  "\<not> onGround (player airborneWorld) \<and> jumpQueued (inputs airborneWorld) \<and>
   jumpStep \<lparr>speed = 0, jump = 2, shield = 1\<rparr> True (airborneWorld, []) = (airborneWorld, []) \<and>
   vy (player (gravityStep 1
     (fst (jumpStep \<lparr>speed = 0, jump = 2, shield = 1\<rparr> True (airborneWorld, []))))) = - 12 / 5 \<and>
   jumpQueued (inputs groundedWorld) \<and> onGround (player groundedWorld) \<and>
   vy (player (fst (jumpStep \<lparr>speed = 0, jump = 2, shield = 1\<rparr> True (groundedWorld, [])))) = - 78 / 5 \<and>
   \<not> onGround (player (fst (jumpStep \<lparr>speed = 0, jump = 2, shield = 1\<rparr> True (groundedWorld, []))))"
proof -
  have a: "\<not> onGround (player airborneWorld)" "jumpQueued (inputs airborneWorld)"
      "py (player airborneWorld) = 300" "vy (player airborneWorld) = - 3"
      "pheight (player airborneWorld) = 72"
    by (simp_all add: airborneWorld_def demoWorld_def initialPlayer_def)
  have g: "jumpQueued (inputs groundedWorld)" "onGround (player groundedWorld)"
    by (simp_all add: groundedWorld_def demoWorld_def initialPlayer_def)
  from jump_only_when_grounded[of airborneWorld "\<lparr>speed = 0, jump = 2, shield = 1\<rparr>" True "[]" 1]
    jump_only_when_grounded[of groundedWorld "\<lparr>speed = 0, jump = 2, shield = 1\<rparr>" True "[]" 1]
    a g
  show ?thesis
    by (simp add: gravityStep_def Let_def GRAVITY_def CANVAS_HEIGHT_def GROUND_HEIGHT_def)
qed

subsection \<open>Upgrade purchases\<close>

text \<open>Claim C6. During a run (the status is never \<open>idle\<close> once a run exists,
  \<open>run_never_idle\<close>) the cost of a category is 3 plus twice its level. A purchase with
  currency equal to the cost leaves currency 0, raises that category's level by one and
  keeps the other levels; a purchase with currency one below the cost returns the whole
  state unchanged.\<close>

theorem purchase_at_exact_cost:
  assumes "worldRef g = Some w" and "status w \<noteq> Idle"
  shows "(upgradePoints w = 3 + 2 * levelOf (upgradesRef g) kind \<longrightarrow>
            (\<exists>w'. worldRef (applyUpgrade kind g) = Some w' \<and> upgradePoints w' = 0) \<and>
            levelOf (upgradesRef (applyUpgrade kind g)) kind = levelOf (upgradesRef g) kind + 1 \<and>
            (\<forall>k. k \<noteq> kind \<longrightarrow>
               levelOf (upgradesRef (applyUpgrade kind g)) k = levelOf (upgradesRef g) k)) \<and>
         (upgradePoints w = 3 + 2 * levelOf (upgradesRef g) kind - 1 \<longrightarrow>
            applyUpgrade kind g = g)"
proof -
  have other: "levelOf (setLevel u kind n) k = levelOf u k" if "k \<noteq> kind" for u n k
    using that by (cases kind; cases k) simp_all
  have same: "levelOf (setLevel u kind n) kind = n" for u n
    by (cases kind) simp_all
  show ?thesis
    using assms by (simp add: applyUpgrade_def upgradeCost_def Let_def other same)
qed

theorem purchase_at_exact_cost_witness:
  "worldRef (shopGame 3) = Some ((demoWorld 1 0)\<lparr>upgradePoints := 3\<rparr>) \<and>
   status ((demoWorld 1 0)\<lparr>upgradePoints := 3\<rparr>) \<noteq> Idle \<and>
   3 = 3 + 2 * levelOf (upgradesRef (shopGame 3)) Speed \<and>
   (\<exists>w'. worldRef (applyUpgrade Speed (shopGame 3)) = Some w' \<and> upgradePoints w' = 0) \<and>
   levelOf (upgradesRef (applyUpgrade Speed (shopGame 3))) Speed = 1 \<and>
   levelOf (upgradesRef (applyUpgrade Speed (shopGame 3))) Shield = 1 \<and>
   worldRef (shopGame 2) = Some ((demoWorld 1 0)\<lparr>upgradePoints := 2\<rparr>) \<and>
   2 = 3 + 2 * levelOf (upgradesRef (shopGame 2)) Speed - 1 \<and>
   applyUpgrade Speed (shopGame 2) = shopGame 2"
proof -
  have s: "worldRef (shopGame n) = Some ((demoWorld 1 0)\<lparr>upgradePoints := n\<rparr>)"
      "status ((demoWorld 1 0)\<lparr>upgradePoints := n\<rparr>) \<noteq> Idle"
      "upgradePoints ((demoWorld 1 0)\<lparr>upgradePoints := n\<rparr>) = n"
      "upgradesRef (shopGame n) = \<lparr>speed = 0, jump = 0, shield = 1\<rparr>" for n
    by (simp_all add: shopGame_def demoGame_def demoWorld_def)
  from purchase_at_exact_cost[OF s(1,2), of 3 Speed]
  have a: "\<exists>w'. worldRef (applyUpgrade Speed (shopGame 3)) = Some w' \<and> upgradePoints w' = 0"
      "levelOf (upgradesRef (applyUpgrade Speed (shopGame 3))) Speed = 1"
      "\<forall>k. k \<noteq> Speed \<longrightarrow> levelOf (upgradesRef (applyUpgrade Speed (shopGame 3))) k =
            levelOf (upgradesRef (shopGame 3)) k"
    by (simp_all add: s)
  from a(3)[rule_format, of Shield]
  have b: "levelOf (upgradesRef (applyUpgrade Speed (shopGame 3))) Shield = 1"
    by (simp add: s)
  from purchase_at_exact_cost[OF s(1,2), of 2 Speed]
  have c: "applyUpgrade Speed (shopGame 2) = shopGame 2"
    by (simp add: s)
  from a(1,2) b c show ?thesis
    by (simp add: s demo_game)
qed

text \<open>Claim C9. When no run exists, or the run has status \<open>idle\<close>,
  \<open>applyUpgrade\<close>
  returns the whole state as it was: upgrade levels, currency, player and the list of
  tones played are unchanged, whatever the currency.\<close>

theorem applyUpgrade_without_run:
  "worldRef g = None \<or> (\<exists>w. worldRef g = Some w \<and> status w = Idle) \<Longrightarrow> applyUpgrade kind g = g"
  by (auto simp: applyUpgrade_def)

theorem applyUpgrade_without_run_witness:
  "worldRef (initialGame [] ''Cipher'') = None \<and>
   applyUpgrade Shield (initialGame [] ''Cipher'') = initialGame [] ''Cipher'' \<and>
   (\<exists>w. worldRef richIdle = Some w \<and> status w = Idle \<and> upgradePoints w = 50) \<and>
   applyUpgrade Speed richIdle = richIdle"
  using applyUpgrade_without_run[of "initialGame [] ''Cipher''" Shield]
    applyUpgrade_without_run[of richIdle Speed]
  by (simp add: initialGame_def richIdle_def resetWorld_def)

subsection \<open>Shield charges\<close>



subsection \<open>Difficulty selector\<close>

text \<open>Claim C7. \<open>getLevel\<close> is total and monotonic: every score is mapped to one of the
  three tiers of \<open>LEVELS\<close> (tier 3 from 1600, tier 2 from 600, tier 1 below), and for
  scores \<open>s1 \<le> s2\<close> the tier number of \<open>s1\<close> is at most the tier number of \<open>s2\<close>.\<close>

theorem getLevel_total_monotone:
  "getLevel s \<in> set LEVELS \<and>
   level (getLevel s) = (if s \<ge> 1600 then 3 else if s \<ge> 600 then 2 else 1) \<and>
   (s1 \<le> s2 \<longrightarrow> level (getLevel s1) \<le> level (getLevel s2))"
  by (simp add: getLevel_def LEVELS_def)

theorem getLevel_total_monotone_witness:
  "(599::real) \<le> 600 \<and> level (getLevel 599) = 1 \<and> level (getLevel 600) = 2 \<and>
   level (getLevel 599) \<le> level (getLevel 600)"
  using getLevel_total_monotone[of 599 599 600] getLevel_total_monotone[of 600 599 600]
  by simp

subsection \<open>Leaderboard\<close>

text \<open>Sorting a list with one element appended, by a stable sort: the element goes behind
  everything whose key is at most its own and before everything with a greater key.\<close>

lemma insort_key_before:
  "f a \<le> f z \<Longrightarrow> insort_key f a (ys @ z # zs) = insort_key f a ys @ z # zs"
  by (induction ys) simp_all

lemma insort_key_behind:
  "\<forall>y \<in> set ys. f y < f a \<Longrightarrow> insort_key f a (ys @ zs) = ys @ insort_key f a zs"
  by (induction ys) auto

lemma sort_key_snoc:
  "sort_key f (xs @ [x]) =
     filter (\<lambda>y. f y \<le> f x) (sort_key f xs) @ x # filter (\<lambda>y. f x < f y) (sort_key f xs)"
proof (induction xs)
  case Nil
  then show ?case by simp
next
  case (Cons a xs)
  let ?S = "sort_key f xs"
  let ?L = "filter (\<lambda>y. f y \<le> f x) ?S"
  let ?R = "filter (\<lambda>y. f x < f y) ?S"
  have s: "sorted (map f ?S)" by simp
  have step: "sort_key f ((a # xs) @ [x]) = insort_key f a (?L @ x # ?R)"
    using Cons.IH by simp
  show ?case
  proof (cases "f a \<le> f x")
    case True
    have "filter (\<lambda>y. f y \<le> f x) (insort_key f a ?S) = insort_key f a ?L"
      using s True by (simp add: filter_insort)
    moreover have "filter (\<lambda>y. f x < f y) (insort_key f a ?S) = ?R"
      using True by (simp add: filter_insort_triv)
    ultimately show ?thesis
      unfolding step using True by (simp add: insort_key_before)
  next
    case False
    have "filter (\<lambda>y. f y \<le> f x) (insort_key f a ?S) = ?L"
      using False by (simp add: filter_insort_triv)
    moreover have "filter (\<lambda>y. f x < f y) (insort_key f a ?S) = insort_key f a ?R"
      using s False by (simp add: filter_insort)
    moreover have "insort_key f a (?L @ x # ?R) = ?L @ x # insort_key f a ?R"
    proof -
      from False have "f x < f a" by simp
      then have "\<forall>y \<in> set ?L. f y < f a" by auto
      then have "insort_key f a (?L @ x # ?R) = ?L @ insort_key f a (x # ?R)"
        by (rule insort_key_behind)
      with False show ?thesis by simp
    qed
    ultimately show ?thesis
      unfolding step by simp
  qed
qed

lemma saveScore_insert:
  "saveScore nm sc t prev =
     take 5 (filter (\<lambda>e. sc \<le> entryScore e) (sort_key (\<lambda>e. - entryScore e) prev)
             @ newEntry nm sc t
             # filter (\<lambda>e. entryScore e < sc) (sort_key (\<lambda>e. - entryScore e) prev))"
proof -
  have "entryScore (newEntry nm sc t) = sc" by (simp add: newEntry_def)
  then show ?thesis
    by (simp add: saveScore_def MAX_LEADERS_def sort_key_snoc[of "\<lambda>e. - entryScore e"])
qed

lemma length_filter_sort_key:
  "length (filter P (sort_key f xs)) = length (filter P xs)"
proof -
  have "length (filter P (sort_key f xs)) = length (sort_key f (filter P xs))"
    by (simp only: filter_sort)
  then show ?thesis by simp
qed

lemma sorted_desc_sort_key:
  "sorted_wrt (\<lambda>a b. entryScore a \<ge> entryScore b) xs \<Longrightarrow> sort_key (\<lambda>e. - entryScore e) xs = xs"
proof -
  assume "sorted_wrt (\<lambda>a b. entryScore a \<ge> entryScore b) xs"
  then have "sorted (map (\<lambda>e. - entryScore e) xs)"
    by (simp add: sorted_wrt_map)
  then show ?thesis by (rule sort_key_id_if_sorted)
qed

lemma filter_sorted_prefix:
  "sorted (map f xs) \<Longrightarrow> filter (\<lambda>y. f y \<le> c) xs = takeWhile (\<lambda>y. f y \<le> c) xs"
proof (induction xs)
  case Nil
  then show ?case by simp
next
  case (Cons a xs)
  show ?case
  proof (cases "f a \<le> c")
    case True
    with Cons show ?thesis by simp
  next
    case False
    from Cons.prems have "\<forall>y \<in> set xs. f a \<le> f y" by simp
    with False have "\<forall>y \<in> set xs. \<not> f y \<le> c" by auto
    then have "filter (\<lambda>y. f y \<le> c) xs = []" by (simp add: filter_empty_conv)
    with False show ?thesis by simp
  qed
qed

text \<open>Claim C10. For any name and score the table returned by \<open>saveScore\<close> has length
  \<open>min (previous length + 1) 5\<close> and is sorted descending by score; it holds only
  entries of the previous table and the new entry. The table is the previous one, sorted,
  with the new entry put behind the entries whose score is at least its own and before the
  lower ones, cut to 5. So the new entry is recorded exactly when fewer than 5 previous
  entries have a score at least as high, also in a full table, at the position that many
  entries from the top, and with an empty player name it is recorded there under the name
  \<open>Anonymous\<close>; when 5 or more previous entries score at least as high, the table is the
  first 5 of the previous one, all of them scoring at least as high.\<close>

theorem saveScore_table:
  "length (saveScore nm sc t prev) = min (length prev + 1) 5 \<and>
   sorted_wrt (\<lambda>a b. entryScore a \<ge> entryScore b) (saveScore nm sc t prev) \<and>
   set (saveScore nm sc t prev) \<subseteq> insert (newEntry nm sc t) (set prev) \<and>
   (length prev < 5 \<longrightarrow> newEntry nm sc t \<in> set (saveScore nm sc t prev)) \<and>
   newEntry [] sc t = \<lparr>name = ''Anonymous'', entryScore = sc, timestamp = t\<rparr> \<and>
   saveScore nm sc t prev =
     take 5 (filter (\<lambda>e. sc \<le> entryScore e) (sort_key (\<lambda>e. - entryScore e) prev)
             @ newEntry nm sc t
             # filter (\<lambda>e. entryScore e < sc) (sort_key (\<lambda>e. - entryScore e) prev)) \<and>
   (sorted_wrt (\<lambda>a b. entryScore a \<ge> entryScore b) prev \<longrightarrow>
      saveScore nm sc t prev =
        take 5 (filter (\<lambda>e. sc \<le> entryScore e) prev @ newEntry nm sc t
                # filter (\<lambda>e. entryScore e < sc) prev)) \<and>
   (length (filter (\<lambda>e. sc \<le> entryScore e) prev) < 5 \<longrightarrow>
      saveScore nm sc t prev ! length (filter (\<lambda>e. sc \<le> entryScore e) prev) = newEntry nm sc t \<and>
      newEntry nm sc t \<in> set (saveScore nm sc t prev) \<and>
      saveScore [] sc t prev ! length (filter (\<lambda>e. sc \<le> entryScore e) prev) =
        \<lparr>name = ''Anonymous'', entryScore = sc, timestamp = t\<rparr>) \<and>
   (5 \<le> length (filter (\<lambda>e. sc \<le> entryScore e) prev) \<longrightarrow>
      saveScore nm sc t prev = take 5 (sort_key (\<lambda>e. - entryScore e) prev) \<and>
      (\<forall>e \<in> set (saveScore nm sc t prev). sc \<le> entryScore e))"
proof -
  let ?all = "sort_key (\<lambda>e. - entryScore e) (prev @ [newEntry nm sc t])"
  let ?S = "sort_key (\<lambda>e. - entryScore e) prev"
  let ?L = "filter (\<lambda>e. sc \<le> entryScore e) ?S"
  let ?R = "filter (\<lambda>e. entryScore e < sc) ?S"
  let ?k = "length (filter (\<lambda>e. sc \<le> entryScore e) prev)"
  have len: "length (saveScore nm sc t prev) = min (length prev + 1) 5"
    by (simp add: saveScore_def MAX_LEADERS_def min.commute)
  have "sorted (map (\<lambda>e. - entryScore e) ?all)" by simp
  then have "sorted_wrt (\<lambda>a b. entryScore a \<ge> entryScore b) ?all"
    by (simp add: sorted_wrt_map del: sorted_sort_key)
  then have srt: "sorted_wrt (\<lambda>a b. entryScore a \<ge> entryScore b) (saveScore nm sc t prev)"
    unfolding saveScore_def by (rule sorted_wrt_take)
  have sub: "set (saveScore nm sc t prev) \<subseteq> insert (newEntry nm sc t) (set prev)"
    unfolding saveScore_def using set_take_subset[of MAX_LEADERS ?all] by auto
  have mem: "newEntry nm sc t \<in> set (saveScore nm sc t prev)" if "length prev < 5"
  proof -
    from that have "take MAX_LEADERS ?all = ?all" by (simp add: MAX_LEADERS_def)
    then show ?thesis by (simp add: saveScore_def)
  qed
  have ins: "saveScore n sc t prev = take 5 (?L @ newEntry n sc t # ?R)" for n
    by (rule saveScore_insert)
  have k: "length ?L = ?k"
    by (rule length_filter_sort_key)
  have srtd: "saveScore nm sc t prev =
        take 5 (filter (\<lambda>e. sc \<le> entryScore e) prev @ newEntry nm sc t
                # filter (\<lambda>e. entryScore e < sc) prev)"
    if "sorted_wrt (\<lambda>a b. entryScore a \<ge> entryScore b) prev"
    using ins[of nm] sorted_desc_sort_key[OF that] by simp
  have at: "saveScore n sc t prev ! ?k = newEntry n sc t" if "?k < 5" for n
    using that k by (simp add: ins nth_append)
  have kept: "newEntry nm sc t \<in> set (saveScore nm sc t prev)" if "?k < 5"
  proof -
    have "?k < length prev + 1"
      by (simp add: le_imp_less_Suc)
    with that have "?k < min (length prev + 1) 5"
      by simp
    then have "?k < length (saveScore nm sc t prev)"
      by (simp only: len)
    then have "saveScore nm sc t prev ! ?k \<in> set (saveScore nm sc t prev)"
      by (rule nth_mem)
    with at[OF that, of nm] show ?thesis by simp
  qed
  have dropped: "saveScore nm sc t prev = take 5 ?S" if "5 \<le> ?k"
  proof -
    from that k have five: "5 \<le> length ?L" by simp
    then have a: "saveScore nm sc t prev = take 5 ?L"
      by (simp add: ins)
    have "?L = takeWhile (\<lambda>e. sc \<le> entryScore e) ?S"
      using filter_sorted_prefix[of "\<lambda>e. - entryScore e" ?S "- sc"] by simp
    then have "?S = ?L @ dropWhile (\<lambda>e. sc \<le> entryScore e) ?S"
      by simp
    then have "take 5 ?S = take 5 (?L @ dropWhile (\<lambda>e. sc \<le> entryScore e) ?S)"
      by simp
    also have "\<dots> = take 5 ?L"
      using five by simp
    finally have "take 5 ?S = take 5 ?L" .
    with a show ?thesis by simp
  qed
  have above: "sc \<le> entryScore e" if "5 \<le> ?k" and "e \<in> set (saveScore nm sc t prev)" for e
  proof -
    from that(1) k have "5 \<le> length ?L" by simp
    then have "saveScore nm sc t prev = take 5 ?L"
      by (simp add: ins)
    with that(2) have "e \<in> set ?L"
      using set_take_subset[of 5 ?L] by auto
    then show ?thesis by simp
  qed
  have anon: "newEntry [] sc t = \<lparr>name = ''Anonymous'', entryScore = sc, timestamp = t\<rparr>"
    by (simp add: newEntry_def)
  have at0: "saveScore [] sc t prev ! ?k = \<lparr>name = ''Anonymous'', entryScore = sc, timestamp = t\<rparr>"
    if "?k < 5"
    using at[OF that, of "[]"] anon by (simp only:)
  show ?thesis
    by (intro conjI impI ballI;
        (rule len srt sub anon ins srtd | erule mem at kept at0 dropped | (erule above, assumption)))
qed

theorem saveScore_table_witness:
  "length board3 < 5 \<and>
   saveScore [] 500 40 board3 =
     [\<lparr>name = ''Cipher'', entryScore = 900, timestamp = 10\<rparr>,
      \<lparr>name = ''Anonymous'', entryScore = 500, timestamp = 40\<rparr>,
      \<lparr>name = ''Neo'', entryScore = 400, timestamp = 20\<rparr>,
      \<lparr>name = ''Trinity'', entryScore = 100, timestamp = 30\<rparr>] \<and>
   \<lparr>name = ''Anonymous'', entryScore = 500, timestamp = 40\<rparr> \<in> set (saveScore [] 500 40 board3) \<and>
   length (saveScore [] 500 40 board3) = 4 \<and>
   sorted_wrt (\<lambda>a b. entryScore a \<ge> entryScore b) board5 \<and>
   length (filter (\<lambda>e. 9999 \<le> entryScore e) board5) = 0 \<and>
   saveScore [] 9999 60 board5 =
     [\<lparr>name = ''Anonymous'', entryScore = 9999, timestamp = 60\<rparr>,
      \<lparr>name = ''Cipher'', entryScore = 500, timestamp = 10\<rparr>,
      \<lparr>name = ''Neo'', entryScore = 400, timestamp = 20\<rparr>,
      \<lparr>name = ''Trinity'', entryScore = 300, timestamp = 30\<rparr>,
      \<lparr>name = ''Morpheus'', entryScore = 200, timestamp = 40\<rparr>] \<and>
   saveScore [] 9999 60 board5 ! 0 = \<lparr>name = ''Anonymous'', entryScore = 9999, timestamp = 60\<rparr> \<and>
   length (filter (\<lambda>e. 50 \<le> entryScore e) board5) = 5 \<and>
   saveScore ''Cipher'' 50 60 board5 = board5"
proof -
  have f: "length (filter (\<lambda>e. 9999 \<le> entryScore e) board5) = 0"
      "length (filter (\<lambda>e. 50 \<le> entryScore e) board5) = 5"
      "sorted_wrt (\<lambda>a b. entryScore a \<ge> entryScore b) board5"
      "sort_key (\<lambda>e. - entryScore e) board5 = board5"
    by (simp_all add: board5_def)
  from saveScore_table[of "[]" 9999 60 board5] f
  have a: "saveScore [] 9999 60 board5 ! 0 = \<lparr>name = ''Anonymous'', entryScore = 9999, timestamp = 60\<rparr>"
    by simp
  from saveScore_table[of "''Cipher''" 50 60 board5] f
  have b: "saveScore ''Cipher'' 50 60 board5 = board5"
    by (simp add: board5_def)
  from saveScore_table[of "[]" 500 40 board3]
  have c: "length (saveScore [] 500 40 board3) = 4"
    by (simp add: board3_def)
  have d: "saveScore [] 500 40 board3 =
     [\<lparr>name = ''Cipher'', entryScore = 900, timestamp = 10\<rparr>,
      \<lparr>name = ''Anonymous'', entryScore = 500, timestamp = 40\<rparr>,
      \<lparr>name = ''Neo'', entryScore = 400, timestamp = 20\<rparr>,
      \<lparr>name = ''Trinity'', entryScore = 100, timestamp = 30\<rparr>]"
    by (simp add: board3_def saveScore_def newEntry_def MAX_LEADERS_def)
  have e: "saveScore [] 9999 60 board5 =
     [\<lparr>name = ''Anonymous'', entryScore = 9999, timestamp = 60\<rparr>,
      \<lparr>name = ''Cipher'', entryScore = 500, timestamp = 10\<rparr>,
      \<lparr>name = ''Neo'', entryScore = 400, timestamp = 20\<rparr>,
      \<lparr>name = ''Trinity'', entryScore = 300, timestamp = 30\<rparr>,
      \<lparr>name = ''Morpheus'', entryScore = 200, timestamp = 40\<rparr>]"
    by (simp add: board5_def saveScore_def newEntry_def MAX_LEADERS_def)
  have l: "length board3 < 5" by (simp add: board3_def)
  from a b c d e f l show ?thesis
    by simp
qed

end
